theory Spec2Isabelle
  imports Complex_Main "HOL-Library.AList" "HOL-Library.Log_Nat"
begin

section \<open>Stock price consensus engine (main.py)\<close>

text \<open>
  A shallow embedding of the aggregation engine of \<^verbatim>\<open>src/main.py\<close>.

  Conventions of the model.
  \<^item> A Python \<^verbatim>\<open>float\<close> is a value of the type \<open>pyfloat\<close>: an IEEE 754 binary64 number,
    an infinity or NaN. Every arithmetic operation rounds its exact result to the nearest
    double, ties to even, as the hardware does. The two zeros are one value: their sign is
    read by no operation of the program.
  \<^item> \<^verbatim>\<open>Optional[float]\<close> is \<open>pyfloat option\<close>.
  \<^item> A raised exception is the left injection of a sum type.
  \<^item> The insertion-ordered \<^verbatim>\<open>dict\<close> \<^verbatim>\<open>source_map\<close> is an association list; the
    assignment \<^verbatim>\<open>d[k] = v\<close> is \<^const>\<open>AList.update\<close>, which overwrites the value of a key
    that is present (keeping its position) and appends a key that is new.
  \<^item> What the outside world supplies to one call (the clock, the answers of the providers)
    is a parameter of the model.
  \<^item> A character of a symbol is a code point below 256.
\<close>

subsection \<open>Binary floating point\<close>

text \<open>The values as they are represented: a finite one by the rational number it is.\<close>

datatype float_repr = Fin rat | PInf | NInf | NaN

text \<open>Rounding to the nearest integer, an exact tie going to the even neighbour.\<close>

definition round_half_even :: "rat \<Rightarrow> int" where
  "round_half_even x =
     (let f = \<lfloor>x\<rfloor>; r = x - of_int f
      in if r < 1 / 2 then f
         else if r > 1 / 2 then f + 1
         else if even f then f else f + 1)"

text \<open>The same rounding of the quotient of two integers, the divisor positive.\<close>

definition round_div :: "int \<Rightarrow> int \<Rightarrow> int" where
  "round_div n d =
     (let q = n div d; r = n mod d
      in if 2 * r < d then q else if d < 2 * r then q + 1 else if even q then q else q + 1)"

definition pow2 :: "int \<Rightarrow> rat" where
  "pow2 e = (if 0 \<le> e then 2 ^ nat e else 1 / 2 ^ nat (- e))"

text \<open>The binary exponent of a positive rational: the bit lengths of numerator and
  denominator give it up to one, and a comparison decides.\<close>

definition ilog2 :: "rat \<Rightarrow> int" where
  "ilog2 x = (let (a, b) = quotient_of x; k = bitlen a - bitlen b
              in if pow2 k \<le> x then k else k - 1)"

text \<open>The exponent of the last bit of the 53-bit significand of a positive number; the
  subnormal numbers share the exponent \<open>- 1074\<close>.\<close>

definition ulp_exponent :: "rat \<Rightarrow> int" where
  "ulp_exponent x = max (- 1074) (ilog2 x - 52)"

text \<open>
  The double nearest to a positive rational number, ties to even: the significand is
  rounded to an integer at the exponent of the last bit. A result of \<open>2 ^ 1024\<close> or more
  is an overflow, \<open>None\<close>.
\<close>

definition round_magnitude :: "rat \<Rightarrow> rat option" where
  "round_magnitude x =
     (let e = ulp_exponent x; m = round_half_even (x / pow2 e)
      in if 971 < e \<or> (e = 971 \<and> 2 ^ 53 \<le> m) then None else Some (of_int m * pow2 e))"

text \<open>The double nearest to a rational number; an overflow gives the infinity of its
  sign.\<close>

definition rd :: "rat \<Rightarrow> float_repr" where
  "rd x =
     (if x = 0 then Fin 0
      else case round_magnitude \<bar>x\<bar> of
        None \<Rightarrow> (if 0 < x then PInf else NInf)
      | Some y \<Rightarrow> Fin (if 0 < x then y else - y))"

fun sign_repr :: "float_repr \<Rightarrow> int" where
  "sign_repr (Fin q) = (if 0 < q then 1 else if q < 0 then - 1 else 0)"
| "sign_repr PInf = 1"
| "sign_repr NInf = - 1"
| "sign_repr NaN = 0"

definition inf_of_sign :: "int \<Rightarrow> float_repr" where
  "inf_of_sign s = (if 0 < s then PInf else if s < 0 then NInf else NaN)"

fun add_repr :: "float_repr \<Rightarrow> float_repr \<Rightarrow> float_repr" where
  "add_repr (Fin a) (Fin b) = rd (a + b)"
| "add_repr NaN _ = NaN"
| "add_repr _ NaN = NaN"
| "add_repr PInf NInf = NaN"
| "add_repr NInf PInf = NaN"
| "add_repr PInf _ = PInf"
| "add_repr _ PInf = PInf"
| "add_repr NInf _ = NInf"
| "add_repr _ NInf = NInf"

fun sub_repr :: "float_repr \<Rightarrow> float_repr \<Rightarrow> float_repr" where
  "sub_repr (Fin a) (Fin b) = rd (a - b)"
| "sub_repr NaN _ = NaN"
| "sub_repr _ NaN = NaN"
| "sub_repr PInf PInf = NaN"
| "sub_repr NInf NInf = NaN"
| "sub_repr PInf _ = PInf"
| "sub_repr _ PInf = NInf"
| "sub_repr NInf _ = NInf"
| "sub_repr _ NInf = PInf"

fun mul_repr :: "float_repr \<Rightarrow> float_repr \<Rightarrow> float_repr" where
  "mul_repr (Fin a) (Fin b) = rd (a * b)"
| "mul_repr NaN _ = NaN"
| "mul_repr _ NaN = NaN"
| "mul_repr a b = inf_of_sign (sign_repr a * sign_repr b)"

text \<open>Division by a divisor other than zero. Python raises \<^verbatim>\<open>ZeroDivisionError\<close> on a
  zero divisor; the functions that divide test for it before they call this one.\<close>

fun div_repr :: "float_repr \<Rightarrow> float_repr \<Rightarrow> float_repr" where
  "div_repr (Fin a) (Fin b) = (if b = 0 then NaN else rd (a / b))"
| "div_repr NaN _ = NaN"
| "div_repr _ NaN = NaN"
| "div_repr (Fin a) _ = Fin 0"
| "div_repr a (Fin b) = inf_of_sign (sign_repr a * sign_repr (Fin b))"
| "div_repr _ _ = NaN"

fun abs_repr :: "float_repr \<Rightarrow> float_repr" where
  "abs_repr (Fin a) = Fin \<bar>a\<bar>"
| "abs_repr PInf = PInf"
| "abs_repr NInf = PInf"
| "abs_repr NaN = NaN"

text \<open>The comparisons; one with NaN is false.\<close>

fun le_repr :: "float_repr \<Rightarrow> float_repr \<Rightarrow> bool" where
  "le_repr (Fin a) (Fin b) = (a \<le> b)"
| "le_repr NaN _ = False"
| "le_repr _ NaN = False"
| "le_repr NInf _ = True"
| "le_repr _ PInf = True"
| "le_repr _ _ = False"

fun lt_repr :: "float_repr \<Rightarrow> float_repr \<Rightarrow> bool" where
  "lt_repr (Fin a) (Fin b) = (a < b)"
| "lt_repr NaN _ = False"
| "lt_repr _ NaN = False"
| "lt_repr PInf _ = False"
| "lt_repr _ NInf = False"
| "lt_repr _ _ = True"

text \<open>
  \<^verbatim>\<open>round(x, ndigits)\<close> on a float: the decimal number with \<open>ndigits\<close> digits after the
  point nearest to the exact value of \<open>x\<close>, ties to even, then the double nearest to
  that decimal. Infinities and NaN round to themselves.
\<close>

fun round_repr :: "float_repr \<Rightarrow> nat \<Rightarrow> float_repr" where
  "round_repr (Fin a) ndigits = rd (of_int (round_half_even (a * 10 ^ ndigits)) / 10 ^ ndigits)"
| "round_repr x ndigits = x"

fun finite_repr :: "float_repr \<Rightarrow> bool" where
  "finite_repr (Fin a) = True"
| "finite_repr _ = False"

fun value_repr :: "float_repr \<Rightarrow> rat" where
  "value_repr (Fin a) = a"
| "value_repr _ = 0"

text \<open>A float is a result of rounding, an infinity or NaN.\<close>

definition is_double :: "float_repr \<Rightarrow> bool" where
  "is_double p = (p = NaN \<or> p = PInf \<or> p = NInf \<or> (\<exists>x. p = rd x))"

typedef pyfloat = "{p. is_double p}"
  by (auto simp: is_double_def)

setup_lifting type_definition_pyfloat

declare Rep_pyfloat_inverse [code abstype]

instantiation pyfloat :: equal
begin

definition equal_pyfloat :: "pyfloat \<Rightarrow> pyfloat \<Rightarrow> bool" where
  "equal_pyfloat a b = (Rep_pyfloat a = Rep_pyfloat b)"

instance
  by standard (simp add: equal_pyfloat_def Rep_pyfloat_inject)

end

text \<open>The float a decimal literal, an \<^verbatim>\<open>int\<close> or a fraction converts to.\<close>

lift_definition float_of :: "rat \<Rightarrow> pyfloat" is rd
  by (auto simp: is_double_def)

lift_definition pinf :: pyfloat is PInf
  by (simp add: is_double_def)

lift_definition ninf :: pyfloat is NInf
  by (simp add: is_double_def)

lift_definition nan :: pyfloat is NaN
  by (simp add: is_double_def)

lift_definition fadd :: "pyfloat \<Rightarrow> pyfloat \<Rightarrow> pyfloat" is add_repr
  subgoal for a b by (cases a; cases b) (auto simp: is_double_def)
  done

lift_definition fsub :: "pyfloat \<Rightarrow> pyfloat \<Rightarrow> pyfloat" is sub_repr
  subgoal for a b by (cases a; cases b) (auto simp: is_double_def)
  done

lift_definition fmul :: "pyfloat \<Rightarrow> pyfloat \<Rightarrow> pyfloat" is mul_repr
  subgoal for a b by (cases a; cases b) (auto simp: is_double_def inf_of_sign_def)
  done

lift_definition fdiv :: "pyfloat \<Rightarrow> pyfloat \<Rightarrow> pyfloat" is div_repr
proof -
  fix a b :: float_repr
  have z: "Fin 0 = rd 0" by (simp add: rd_def)
  show "is_double (div_repr a b)"
    by (cases a; cases b) (auto simp: is_double_def inf_of_sign_def intro: z)
qed

lift_definition fabs :: "pyfloat \<Rightarrow> pyfloat" is abs_repr
proof -
  fix a :: float_repr
  assume d: "is_double a"
  have nonneg: "0 \<le> y" if "round_magnitude x = Some y" and "0 \<le> x" for x y
  proof -
    have "0 \<le> x / pow2 (ulp_exponent x)" using that(2) by (simp add: pow2_def)
    then have "0 \<le> \<lfloor>x / pow2 (ulp_exponent x)\<rfloor>" by simp
    then have "0 \<le> round_half_even (x / pow2 (ulp_exponent x))"
      by (simp add: round_half_even_def Let_def)
    moreover have "0 \<le> pow2 (ulp_exponent x)" by (simp add: pow2_def)
    ultimately show ?thesis
      using that(1) by (auto simp: round_magnitude_def Let_def split: if_splits)
  qed
  have r: "abs_repr (rd x) = rd \<bar>x\<bar>" for x
  proof (cases "round_magnitude \<bar>x\<bar>")
    case None
    then show ?thesis by (simp add: rd_def)
  next
    case (Some y)
    then have "0 \<le> y" using nonneg[of "\<bar>x\<bar>" y] by simp
    then show ?thesis using Some by (simp add: rd_def)
  qed
  show "is_double (abs_repr a)"
  proof (cases a)
    case (Fin q)
    then obtain x where "a = rd x" using d by (auto simp: is_double_def)
    then have "abs_repr a = rd \<bar>x\<bar>" by (simp add: r)
    then show ?thesis by (auto simp: is_double_def)
  qed (simp_all add: is_double_def)
qed

lift_definition fle :: "pyfloat \<Rightarrow> pyfloat \<Rightarrow> bool" is le_repr .

lift_definition flt :: "pyfloat \<Rightarrow> pyfloat \<Rightarrow> bool" is lt_repr .

lift_definition float_round :: "pyfloat \<Rightarrow> nat \<Rightarrow> pyfloat" is round_repr
  subgoal for a n by (cases a) (auto simp: is_double_def)
  done

text \<open>\<^verbatim>\<open>math.isfinite\<close>, and the exact value of a finite float.\<close>

lift_definition is_finite :: "pyfloat \<Rightarrow> bool" is finite_repr .

lift_definition exact_value :: "pyfloat \<Rightarrow> rat" is value_repr .

text \<open>\<^verbatim>\<open>a > b\<close>.\<close>

definition fgt :: "pyfloat \<Rightarrow> pyfloat \<Rightarrow> bool" where
  "fgt a b = flt b a"

text \<open>\<^verbatim>\<open>min(a, b)\<close>: the second argument when it is smaller, else the first.\<close>

definition fmin :: "pyfloat \<Rightarrow> pyfloat \<Rightarrow> pyfloat" where
  "fmin a b = (if flt b a then b else a)"

text \<open>\<^verbatim>\<open>sorted\<close> on floats without NaN: insertion from the right, which is stable.\<close>

fun insort_float :: "pyfloat \<Rightarrow> pyfloat list \<Rightarrow> pyfloat list" where
  "insort_float x [] = [x]"
| "insort_float x (y # ys) = (if fle x y then x # y # ys else y # insort_float x ys)"

fun sorted_float :: "pyfloat list \<Rightarrow> pyfloat list" where
  "sorted_float [] = []"
| "sorted_float (x # xs) = insort_float x (sorted_float xs)"

subsection \<open>CONFIG\<close>

definition REQUEST_TIMEOUT :: nat where
  "REQUEST_TIMEOUT = 5"

definition MIN_VALID_SOURCES :: nat where
  "MIN_VALID_SOURCES = 1"

definition MAX_PRICE_DEVIATION :: pyfloat where
  "MAX_PRICE_DEVIATION = float_of (1 / 2)"

text \<open>\<^verbatim>\<open>time.strptime("09:30:00", "%H:%M:%S").tm_hour\<close> is 9 and
  \<^verbatim>\<open>time.strptime("16:00:00", "%H:%M:%S").tm_hour\<close> is 16.\<close>

definition MARKET_OPEN_TIME :: int where
  "MARKET_OPEN_TIME = 9"

definition MARKET_CLOSE_TIME :: int where
  "MARKET_CLOSE_TIME = 16"

subsection \<open>UTILITIES: the market clock\<close>

text \<open>
  A point in time is the number of whole seconds since 1970-01-01T00:00:00 UTC, the
  value \<^verbatim>\<open>datetime.now(timezone.utc)\<close> is built from (its microseconds play no role in the
  fields read here). \<^verbatim>\<open>datetime\<close> has no leap seconds, so the fields of the calendar are
  plain quotients and remainders; 1970-01-01 was a Thursday, \<^verbatim>\<open>weekday()\<close> 3.
\<close>

type_synonym datetime = int

definition hour :: "datetime \<Rightarrow> int" where
  "hour t = (t div 3600) mod 24"

definition minute :: "datetime \<Rightarrow> int" where
  "minute t = (t div 60) mod 60"

definition weekday :: "datetime \<Rightarrow> int" where
  "weekday t = (t div 86400 + 3) mod 7"

text \<open>\<^verbatim>\<open>timedelta(hours=-5)\<close>, in seconds.\<close>

definition ET_OFFSET :: int where
  "ET_OFFSET = - 5 * 3600"

definition market_is_open :: "datetime \<Rightarrow> bool" where
  "market_is_open now =
     (let now_et = now + ET_OFFSET;
          current_hour = hour now_et;
          current_minute = minute now_et;
          is_open = ((current_hour > MARKET_OPEN_TIME \<or>
                      (current_hour = MARKET_OPEN_TIME \<and> current_minute \<ge> 30)) \<and>
                     current_hour < MARKET_CLOSE_TIME);
          is_weekend = (weekday now_et \<ge> 5)
      in is_open \<and> \<not> is_weekend)"

text \<open>
  The session window as the specification words it: the time of day of the shifted
  clock, in seconds after midnight, lies in the half-open interval from 09:30 to 16:00,
  and the shifted day is neither a Saturday (5) nor a Sunday (6).
\<close>

definition second_of_day :: "datetime \<Rightarrow> int" where
  "second_of_day t = t mod 86400"

text \<open>The minute of the day, from which hour and minute are read off.\<close>

definition minute_of_day :: "datetime \<Rightarrow> int" where
  "minute_of_day t = t div 60 mod 1440"

definition spec_session_active :: "datetime \<Rightarrow> bool" where
  "spec_session_active now =
     (let shifted = now + ET_OFFSET
      in (9 * 3600 + 30 * 60 \<le> second_of_day shifted \<and> second_of_day shifted < 16 * 3600) \<and>
         weekday shifted \<noteq> 5 \<and> weekday shifted \<noteq> 6)"

subsection \<open>Exceptions\<close>

datatype py_error = StatisticsError | ZeroDivisionError

subsection \<open>SOURCE SCRAPERS\<close>

text \<open>
  A price source has a name and a \<^verbatim>\<open>fetch\<close> method. The method talks to a provider
  over the network and catches every exception, so for one call of the engine it is a
  function from the symbol to \<^verbatim>\<open>Optional[float]\<close>: the answers of the provider are a
  parameter. An answer is any float: \<^verbatim>\<open>float(price)\<close> also returns an infinity or NaN
  when the provider sends one.
\<close>

record PriceSource =
  name :: string
  fetch :: "string \<Rightarrow> pyfloat option"

definition YahooSource :: "(string \<Rightarrow> pyfloat option) \<Rightarrow> PriceSource" where
  "YahooSource answers = \<lparr>name = ''YahooFinance'', fetch = answers\<rparr>"

definition StooqSource :: "(string \<Rightarrow> pyfloat option) \<Rightarrow> PriceSource" where
  "StooqSource answers = \<lparr>name = ''Stooq'', fetch = answers\<rparr>"

subsection \<open>VALIDATION\<close>

definition is_valid_price :: "pyfloat option \<Rightarrow> bool" where
  "is_valid_price price = (price \<noteq> None \<and> fgt (the price) (float_of 0))"

subsection \<open>The library functions used by the consensus\<close>

text \<open>
  \<^verbatim>\<open>statistics.median\<close>: sorts, raises on no data, returns the middle element of an odd
  number of data and \<^verbatim>\<open>(data[i - 1] + data[i]) / 2\<close> of an even number, the sum and the
  quotient in floating point.
\<close>

definition median :: "pyfloat list \<Rightarrow> py_error + pyfloat" where
  "median xs =
     (let data = sorted_float xs; n = length data
      in if n = 0 then Inl StatisticsError
         else if n mod 2 = 1 then Inr (data ! (n div 2))
         else (let i = n div 2 in Inr (fdiv (fadd (data ! (i - 1)) (data ! i)) (float_of 2))))"

text \<open>
  \<^verbatim>\<open>statistics.mean\<close>: raises on no data. On finite data it sums the exact values as
  fractions and converts the exact quotient to the nearest float. When some of the data
  are infinities or NaN, their floating-point sum takes the place of the exact sum.
\<close>

definition mean :: "pyfloat list \<Rightarrow> py_error + pyfloat" where
  "mean data =
     (if length data < 1 then Inl StatisticsError
      else
        (let special = filter (\<lambda>p. \<not> is_finite p) data
         in if special = []
            then Inr (float_of (sum_list (map exact_value data) / of_nat (length data)))
            else Inr (fdiv (foldl fadd (float_of 0) special)
                           (float_of (of_nat (length data))))))"

text \<open>\<^verbatim>\<open>round(x, ndigits)\<close>.\<close>

definition py_round :: "pyfloat \<Rightarrow> nat \<Rightarrow> pyfloat" where
  "py_round x ndigits = float_round x ndigits"

subsection \<open>CONSENSUS ENGINE\<close>

text \<open>The test of the list comprehension,
  \<^verbatim>\<open>abs(p - median_price) / median_price * 100 <= MAX_PRICE_DEVIATION\<close>, each operation
  in floating point.\<close>

definition within_deviation :: "pyfloat \<Rightarrow> pyfloat \<Rightarrow> bool" where
  "within_deviation median_price p =
     fle (fmul (fdiv (fabs (fsub p median_price)) median_price) (float_of 100))
         MAX_PRICE_DEVIATION"

text \<open>
  The result is \<open>Inr None\<close> for Python's \<^verbatim>\<open>None\<close>, \<open>Inr (Some v)\<close> for a price and
  \<open>Inl e\<close> for an exception. The comprehension divides by the median for its first
  element already, so on data a median of zero raises.
\<close>

definition consensus_price :: "pyfloat list \<Rightarrow> py_error + pyfloat option" where
  "consensus_price prices =
     (if length prices < MIN_VALID_SOURCES then Inr None
      else case median prices of
        Inl e \<Rightarrow> Inl e
      | Inr median_price \<Rightarrow>
          if prices \<noteq> [] \<and> median_price = float_of 0 then Inl ZeroDivisionError
          else
            (let filtered = filter (within_deviation median_price) prices
             in if length filtered < MIN_VALID_SOURCES then Inr None
                else case mean filtered of
                  Inl e \<Rightarrow> Inl e
                | Inr m \<Rightarrow> Inr (Some (py_round m 2))))"

subsection \<open>CONFIDENCE SCORING\<close>

text \<open>\<^verbatim>\<open>valid_count / total_sources\<close> is the true division of two integers: the float
  nearest to the exact quotient.\<close>

definition confidence_score :: "nat \<Rightarrow> nat \<Rightarrow> bool \<Rightarrow> py_error + pyfloat" where
  "confidence_score valid_count total_sources final_price_exists =
     (if \<not> final_price_exists then Inr (float_of 0)
      else if total_sources = 0 then Inl ZeroDivisionError
      else (let base_confidence = float_of (of_nat valid_count / of_nat total_sources)
            in Inr (py_round (fmin (float_of 1) (fadd base_confidence (float_of (1 / 10)))) 2)))"

subsection \<open>CORE ENGINE\<close>

text \<open>A value of \<^verbatim>\<open>source_map\<close> is a price or the string \<^verbatim>\<open>"FAILED"\<close>.\<close>

datatype source_value = Price pyfloat | FAILED

text \<open>
  The dictionary returned by \<^verbatim>\<open>fetch_price\<close>: the success dictionary or the dictionary
  of \<^verbatim>\<open>_error\<close>, told apart by the key \<^verbatim>\<open>"error"\<close> as the interface does.
\<close>

datatype AggregationResult =
    is_Success: Success (symbol: string) (price: pyfloat) (confidence: pyfloat)
      (sources_used: "string list")
      (source_prices: "(string \<times> source_value) list") (market_state: string)
      (scraped_at: string) (price_type: string)
  | is_Failure: Failure (error: string) (message: string) (scraped_at: string)
      (source_prices: "(string \<times> source_value) list")

text \<open>\<^verbatim>\<open>result.get('confidence')\<close>: absent from the dictionary of a failure.\<close>

fun get_confidence :: "AggregationResult \<Rightarrow> pyfloat option" where
  "get_confidence (Success s p c u m st stamp ty) = Some c"
| "get_confidence (Failure e msg stamp m) = None"

text \<open>\<^verbatim>\<open>result.get('confidence', 0)\<close>, as the interface reads it.\<close>

definition confidence_or_zero :: "AggregationResult \<Rightarrow> pyfloat" where
  "confidence_or_zero r = (case get_confidence r of None \<Rightarrow> float_of 0 | Some c \<Rightarrow> c)"

text \<open>The engine object: \<^verbatim>\<open>__init__\<close> stores the sources and their number.\<close>

record StockPriceEngine =
  sources :: "PriceSource list"
  total_sources :: nat

text \<open>An engine over any list of registered sources, built the way \<^verbatim>\<open>__init__\<close>
  builds its own.\<close>

definition engine_of :: "PriceSource list \<Rightarrow> StockPriceEngine" where
  "engine_of srcs = \<lparr>sources = srcs, total_sources = length srcs\<rparr>"

text \<open>\<^verbatim>\<open>StockPriceEngine()\<close>, for given answers of the two providers.\<close>

definition StockPriceEngine_init ::
  "(string \<Rightarrow> pyfloat option) \<Rightarrow> (string \<Rightarrow> pyfloat option) \<Rightarrow> StockPriceEngine" where
  "StockPriceEngine_init yahoo stooq = engine_of [YahooSource yahoo, StooqSource stooq]"

text \<open>The decimal digits of a natural number, as an f-string prints an \<^verbatim>\<open>int\<close>.\<close>

definition digit_char :: "nat \<Rightarrow> char" where
  "digit_char d = char_of (48 + d)"

fun str_nat :: "nat \<Rightarrow> string" where
  "str_nat n = (if n < 10 then [digit_char n] else str_nat (n div 10) @ [digit_char (n mod 10)])"

declare str_nat.simps [simp del]

text \<open>
  \<^verbatim>\<open>str.upper\<close>. A character of the model is a code point below 256. The letters a to z
  and the accented letters from U+00E0 to U+00FE (the division sign U+00F7 apart) become
  their capitals, 32 code points lower. The three letters whose capital is no single code
  point below 256 (U+00B5, U+00DF, U+00FF) stay as they are: there the model is not
  \<^verbatim>\<open>str.upper\<close>.
\<close>

definition upper_char :: "char \<Rightarrow> char" where
  "upper_char c =
     (let n = (of_char c :: nat)
      in if (97 \<le> n \<and> n \<le> 122) \<or> (224 \<le> n \<and> n \<le> 254 \<and> n \<noteq> 247)
         then char_of (n - 32) else c)"

definition upper :: "string \<Rightarrow> string" where
  "upper s = map upper_char s"

text \<open>\<^verbatim>\<open>_error\<close>; \<open>stamp\<close> is the string \<^verbatim>\<open>utc_now()\<close> returns.\<close>

definition engine_error ::
  "string \<Rightarrow> string \<Rightarrow> string \<Rightarrow> (string \<times> source_value) list \<Rightarrow> AggregationResult" where
  "engine_error code msg stamp source_map =
     Failure code msg stamp (if source_map \<noteq> [] then source_map else [])"

text \<open>The three variables of the data gathering loop.\<close>

record gathered =
  raw_prices :: "pyfloat list"
  source_map :: "(string \<times> source_value) list"
  valid_count :: nat

text \<open>Their values before the loop.\<close>

definition gather_init :: gathered where
  "gather_init = \<lparr>raw_prices = [], source_map = [], valid_count = 0\<rparr>"

fun gather :: "PriceSource list \<Rightarrow> string \<Rightarrow> gathered \<Rightarrow> gathered" where
  "gather [] ticker st = st"
| "gather (source # rest) ticker st =
     (let price = fetch source ticker
      in gather rest ticker
           (if is_valid_price price
            then \<lparr>raw_prices = raw_prices st @ [the price],
                  source_map = AList.update (name source) (Price (the price)) (source_map st),
                  valid_count = valid_count st + 1\<rparr>
            else st\<lparr>source_map := AList.update (name source) FAILED (source_map st)\<rparr>))"

text \<open>
  \<^verbatim>\<open>fetch_price\<close>. \<open>now\<close> is the clock read by \<^verbatim>\<open>market_is_open()\<close>, \<open>stamp\<close> the string
  returned by \<^verbatim>\<open>utc_now()\<close> when the result is built.
\<close>

definition fetch_price ::
  "StockPriceEngine \<Rightarrow> datetime \<Rightarrow> string \<Rightarrow> string \<Rightarrow> py_error + AggregationResult" where
  "fetch_price self now stamp ticker =
     (let market = (if market_is_open now then ''OPEN'' else ''CLOSED'');
          st = gather (sources self) ticker gather_init
      in if valid_count st < MIN_VALID_SOURCES
         then Inr (engine_error ''INSUFFICIENT_DATA''
                (''Requires '' @ str_nat MIN_VALID_SOURCES @
                 '' reliable sources, but only found '' @ str_nat (valid_count st))
                stamp (source_map st))
         else case consensus_price (raw_prices st) of
           Inl e \<Rightarrow> Inl e
         | Inr None \<Rightarrow>
             Inr (engine_error ''LOW_CONFIDENCE''
               (''Prices deviated by more than '' @ ''0.5'' @ ''%. Check raw prices.'')
               stamp (source_map st))
         | Inr (Some final_price) \<Rightarrow>
             (case confidence_score (valid_count st) (total_sources self) True of
                Inl e \<Rightarrow> Inl e
              | Inr conf \<Rightarrow>
                  Inr (Success (upper ticker) final_price conf
                        (map fst (filter (\<lambda>(k, v). v \<noteq> FAILED) (source_map st)))
                        (source_map st) market stamp ''LIVE'')))"

subsection \<open>The readings of one call, as the specification names them\<close>

text \<open>
  \<open>rawPrices\<close>: the valid prices among the readings of the registered sources, in
  registration order; \<open>validCount\<close> is the length of this list.
\<close>

definition valid_readings :: "PriceSource list \<Rightarrow> string \<Rightarrow> pyfloat list" where
  "valid_readings srcs ticker =
     map the (filter is_valid_price (map (\<lambda>s. fetch s ticker) srcs))"

text \<open>The per-source map with one entry for each registered source, in registration
  order: the price of a valid reading, the marker of a failed one.\<close>

definition reading_value :: "pyfloat option \<Rightarrow> source_value" where
  "reading_value r = (if is_valid_price r then Price (the r) else FAILED)"

definition per_source_map :: "PriceSource list \<Rightarrow> string \<Rightarrow> (string \<times> source_value) list" where
  "per_source_map srcs ticker = map (\<lambda>s. (name s, reading_value (fetch s ticker))) srcs"

subsection \<open>The deviation from the median in exact arithmetic\<close>

text \<open>
  The median of the exact values of the prices, and the percentage deviation of a value
  from it, as real numbers: the reading of the specification's words "deviation from their
  median" that involves no rounding.
\<close>

definition exact_median :: "rat list \<Rightarrow> rat" where
  "exact_median xs =
     (let data = sort xs; n = length data
      in if n mod 2 = 1 then data ! (n div 2)
         else (data ! (n div 2 - 1) + data ! (n div 2)) / 2)"

definition exact_deviation :: "rat \<Rightarrow> rat \<Rightarrow> rat" where
  "exact_deviation m p = \<bar>p - m\<bar> / m * 100"

section \<open>The market clock\<close>

lemma hour_minute_of_day: "hour t = minute_of_day t div 60"
proof -
  have "t div 60 mod (60 * 24) = 60 * (t div 60 div 60 mod 24) + t div 60 mod 60"
    by (rule zmod_zmult2_eq) simp
  moreover have "t div 60 div 60 = t div 3600"
    by (simp add: div_mult2_eq[symmetric])
  ultimately have "t div 60 mod 1440 = 60 * (t div 3600 mod 24) + t div 60 mod 60"
    by simp
  then have "(t div 60 mod 1440) div 60 = t div 3600 mod 24"
    by simp
  then show ?thesis by (simp add: hour_def minute_of_day_def)
qed

lemma minute_minute_of_day: "minute t = minute_of_day t mod 60"
proof -
  have "(60::int) dvd 1440" by simp
  then have "t div 60 mod 1440 mod 60 = t div 60 mod 60"
    by (rule mod_mod_cancel)
  then show ?thesis by (simp add: minute_def minute_of_day_def)
qed

lemma second_of_day_split: "second_of_day t = 60 * minute_of_day t + t mod 60"
proof -
  have "t mod (60 * 1440) = 60 * (t div 60 mod 1440) + t mod 60"
    by (rule zmod_zmult2_eq) simp
  then show ?thesis by (simp add: second_of_day_def minute_of_day_def)
qed

lemma window_minutes:
  fixes q :: int
  shows "((q div 60 > 9 \<or> (q div 60 = 9 \<and> q mod 60 \<ge> 30)) \<and> q div 60 < 16) =
         (570 \<le> q \<and> q < 960)"
  by presburger

lemma window_seconds:
  fixes q r :: int
  assumes "0 \<le> r" "r < 60"
  shows "(34200 \<le> 60 * q + r \<and> 60 * q + r < 57600) = (570 \<le> q \<and> q < 960)"
  using assms by auto

lemma weekday_range: "0 \<le> weekday t \<and> weekday t < 7"
  by (simp add: weekday_def)

text \<open>
  Claim C8. For every time of the clock, \<^const>\<open>market_is_open\<close> is true exactly when
  that time, shifted by the fixed offset of five hours, has its time of day in the
  half-open window from 09:30 to 16:00 and falls on a day from Monday to Friday.
\<close>

theorem market_is_open_window: "market_is_open now = spec_session_active now"
proof -
  define t where "t = now + ET_OFFSET"
  have r: "0 \<le> t mod 60" "t mod 60 < 60" by simp_all
  have w: "(\<not> weekday t \<ge> 5) = (weekday t \<noteq> 5 \<and> weekday t \<noteq> 6)"
    using weekday_range[of t] by auto
  have "market_is_open now =
      (((hour t > 9 \<or> (hour t = 9 \<and> minute t \<ge> 30)) \<and> hour t < 16) \<and> \<not> weekday t \<ge> 5)"
    by (simp add: market_is_open_def Let_def t_def MARKET_OPEN_TIME_def MARKET_CLOSE_TIME_def)
  also have "\<dots> = ((570 \<le> minute_of_day t \<and> minute_of_day t < 960) \<and> \<not> weekday t \<ge> 5)"
    by (simp only: hour_minute_of_day minute_minute_of_day window_minutes)
  also have "\<dots> = ((34200 \<le> second_of_day t \<and> second_of_day t < 57600) \<and> \<not> weekday t \<ge> 5)"
    by (simp only: second_of_day_split window_seconds[OF r])
  also have "\<dots> = spec_session_active now"
    using w by (simp add: spec_session_active_def Let_def t_def)
  finally show ?thesis .
qed

text \<open>Monday 2025-11-03, 14:30:00 UTC, is 09:30:00 on the shifted clock: the session
  is active, by the window and so by the code.\<close>

theorem market_is_open_window_witness:
  "spec_session_active 1762180200 \<and> market_is_open 1762180200"
proof -
  have "spec_session_active 1762180200"
    by (simp add: spec_session_active_def second_of_day_def weekday_def ET_OFFSET_def)
  then show ?thesis
    using market_is_open_window [of 1762180200] by simp
qed

section \<open>Rounding to a double\<close>

lemma pow2_powi: "pow2 e = 2 powi e"
  by (simp add: pow2_def power_int_def inverse_eq_divide power_one_over)

lemma pow2_pos: "0 < pow2 e"
  by (simp add: pow2_powi)

lemma pow2_mono:
  assumes "a \<le> b"
  shows "pow2 a \<le> pow2 b"
  using assms by (simp add: pow2_powi power_int_increasing)

lemma pow2_split:
  assumes "e \<le> k"
  shows "pow2 k = of_int (2 ^ nat (k - e)) * pow2 e"
proof -
  have "(2::rat) powi k = 2 powi ((k - e) + e)" by simp
  also have "\<dots> = 2 powi (k - e) * 2 powi e" by (rule power_int_add) simp
  also have "(2::rat) powi (k - e) = 2 ^ nat (k - e)"
    using assms by (simp add: power_int_nonneg_exp)
  finally show ?thesis by (simp add: pow2_powi)
qed

lemma round_half_even_ge:
  assumes "of_int k \<le> y"
  shows "k \<le> round_half_even y"
proof -
  have "k \<le> \<lfloor>y\<rfloor>" using assms by (simp add: le_floor_iff)
  moreover have "\<lfloor>y\<rfloor> \<le> round_half_even y"
    by (simp add: round_half_even_def Let_def)
  ultimately show ?thesis by simp
qed

lemma round_half_even_div:
  assumes "0 < d"
  shows "round_half_even (of_int n / of_int d) = round_div n d"
proof -
  have f: "\<lfloor>rat_of_int n / of_int d\<rfloor> = n div d" by (simp add: floor_divide_of_int_eq)
  have "n = d * (n div d) + n mod d" by simp
  then have "rat_of_int n = of_int (d * (n div d) + n mod d)" by (simp only:)
  then have e1: "rat_of_int n = of_int d * of_int (n div d) + of_int (n mod d)"
    by (simp only: of_int_add of_int_mult)
  have "rat_of_int n / of_int d =
      (of_int d * of_int (n div d) + of_int (n mod d)) / of_int d"
    by (simp only: e1[symmetric])
  also have "\<dots> = of_int (n div d) + of_int (n mod d) / of_int d"
    using assms by (simp add: add_divide_distrib)
  finally have "rat_of_int n / of_int d = of_int (n div d) + of_int (n mod d) / of_int d" .
  then have r: "rat_of_int n / of_int d - of_int (n div d) = of_int (n mod d) / of_int d"
    by simp
  have lt: "(rat_of_int (n mod d) / of_int d < 1 / 2) = (2 * (n mod d) < d)"
  proof -
    have "(rat_of_int (n mod d) / of_int d < 1 / 2) = (rat_of_int (2 * (n mod d)) < of_int d)"
      using assms by (simp add: field_simps)
    then show ?thesis by (simp only: of_int_less_iff)
  qed
  have gt: "(1 / 2 < rat_of_int (n mod d) / of_int d) = (d < 2 * (n mod d))"
  proof -
    have "(1 / 2 < rat_of_int (n mod d) / of_int d) = (rat_of_int d < of_int (2 * (n mod d)))"
      using assms by (simp add: field_simps)
    then show ?thesis by (simp only: of_int_less_iff)
  qed
  show ?thesis
    unfolding round_half_even_def round_div_def Let_def f r lt gt by simp
qed

text \<open>Rounding computed on numerator and denominator; this is the equation that
  evaluation uses.\<close>

lemma round_magnitude_code [code]:
  "round_magnitude x =
     (let (a, b) = quotient_of x;
          e = ulp_exponent x;
          m = (if e \<le> 0 then round_div (a * 2 ^ nat (- e)) b else round_div a (b * 2 ^ nat e))
      in if 971 < e \<or> (e = 971 \<and> 2 ^ 53 \<le> m) then None else Some (of_int m * pow2 e))"
proof -
  obtain a b where q: "quotient_of x = (a, b)" by (cases "quotient_of x")
  have b: "0 < b" using q by (rule quotient_of_denom_pos)
  have x: "x = of_int a / of_int b" using q by (rule quotient_of_div)
  define e where "e = ulp_exponent x"
  have key: "round_half_even (x / pow2 e) =
      (if e \<le> 0 then round_div (a * 2 ^ nat (- e)) b else round_div a (b * 2 ^ nat e))"
  proof (cases "e \<le> 0")
    case True
    have "x / pow2 e = of_int (a * 2 ^ nat (- e)) / of_int b"
    proof (cases "e = 0")
      case True
      then show ?thesis by (simp add: pow2_def x)
    next
      case False
      then show ?thesis using True by (simp add: pow2_def x)
    qed
    then have "round_half_even (x / pow2 e) = round_div (a * 2 ^ nat (- e)) b"
      using round_half_even_div[OF b, of "a * 2 ^ nat (- e)"] by (simp only:)
    then show ?thesis using True by simp
  next
    case False
    have "x / pow2 e = of_int a / of_int (b * 2 ^ nat e)"
      using False by (simp add: pow2_def x)
    moreover have "0 < b * 2 ^ nat e" using b by simp
    ultimately have "round_half_even (x / pow2 e) = round_div a (b * 2 ^ nat e)"
      using round_half_even_div[of "b * 2 ^ nat e" a] by (simp only:)
    then show ?thesis using False by simp
  qed
  show ?thesis
    unfolding round_magnitude_def Let_def q split_conv key[unfolded e_def] by (rule refl)
qed

text \<open>The exponent found is not above the number.\<close>

lemma ilog2_lower:
  assumes "0 < x"
  shows "pow2 (ilog2 x) \<le> x"
proof -
  obtain a b where q: "quotient_of x = (a, b)" by (cases "quotient_of x")
  have b: "0 < b" using q by (rule quotient_of_denom_pos)
  have x: "x = of_int a / of_int b" using q by (rule quotient_of_div)
  have a: "0 < a" using assms b unfolding x by (simp add: zero_less_divide_iff)
  define k where "k = bitlen a - bitlen b"
  show ?thesis
  proof (cases "pow2 k \<le> x")
    case True
    then show ?thesis by (simp add: ilog2_def q k_def)
  next
    case False
    then have i: "ilog2 x = k - 1" by (simp add: ilog2_def q k_def)
    have la: "2 ^ nat (bitlen a - 1) \<le> a" using bitlen_bounds[OF a] by simp
    have lb: "b < 2 ^ nat (bitlen b)" using bitlen_bounds[OF b] by simp
    have la1: "1 \<le> bitlen a" using a by (simp add: bitlen_alt_def)
    have lb0: "0 \<le> bitlen b" by (rule bitlen_nonneg)
    have "pow2 (k - 1) = 2 powi ((bitlen a - 1) - bitlen b)"
      by (simp add: pow2_powi k_def algebra_simps)
    also have "\<dots> = 2 powi (bitlen a - 1) / 2 powi (bitlen b)"
      by (rule power_int_diff) simp
    also have "\<dots> = 2 ^ nat (bitlen a - 1) / 2 ^ nat (bitlen b)"
      using la1 lb0 by (simp add: power_int_nonneg_exp)
    also have "\<dots> \<le> of_int a / of_int b"
    proof (rule frac_le)
      show "(0::rat) \<le> of_int a" using a by simp
      have "rat_of_int (2 ^ nat (bitlen a - 1)) \<le> of_int a" using la by (simp only: of_int_le_iff)
      then show "(2::rat) ^ nat (bitlen a - 1) \<le> of_int a" by simp
      show "(0::rat) < of_int b" using b by simp
      have "rat_of_int b \<le> of_int (2 ^ nat (bitlen b))" using lb by (simp only: of_int_le_iff less_imp_le)
      then show "rat_of_int b \<le> 2 ^ nat (bitlen b)" by simp
    qed
    finally have "pow2 (k - 1) \<le> of_int a / of_int b" .
    then have "pow2 (k - 1) \<le> x" by (simp only: x[symmetric])
    then show ?thesis by (simp only: i)
  qed
qed

lemma ulp_exponent_lower: "- 1074 \<le> ulp_exponent x"
  by (simp add: ulp_exponent_def)

text \<open>Rounding does not go below a power of two that is not above the number.\<close>

lemma round_magnitude_lower:
  assumes x: "pow2 k \<le> x" and k: "- 1074 \<le> k" and r: "round_magnitude x = Some y"
  shows "pow2 k \<le> y"
proof -
  define e where "e = ulp_exponent x"
  define m where "m = round_half_even (x / pow2 e)"
  have pos: "0 < x" using x pow2_pos[of k] by simp
  have y: "y = of_int m * pow2 e"
    using r by (auto simp: round_magnitude_def Let_def e_def m_def split: if_splits)
  show ?thesis
  proof (cases "e \<le> k")
    case True
    have "of_int (2 ^ nat (k - e)) * pow2 e \<le> x" using x pow2_split[OF True] by simp
    then have "of_int (2 ^ nat (k - e)) \<le> x / pow2 e"
      using pow2_pos[of e] by (simp add: pos_le_divide_eq)
    then have "2 ^ nat (k - e) \<le> m" unfolding m_def by (rule round_half_even_ge)
    then have "rat_of_int (2 ^ nat (k - e)) \<le> of_int m" by (simp only: of_int_le_iff)
    then have "of_int (2 ^ nat (k - e)) * pow2 e \<le> of_int m * pow2 e"
      using pow2_pos[of e] by (simp add: mult_le_cancel_right)
    then show ?thesis unfolding y using pow2_split[OF True] by simp
  next
    case False
    then have ek: "k < e" by simp
    then have "e = ilog2 x - 52" using k by (simp add: e_def ulp_exponent_def max_def split: if_splits)
    then have "pow2 e \<le> pow2 (ilog2 x)" by (simp add: pow2_mono)
    then have "pow2 e \<le> x" using ilog2_lower[OF pos] by simp
    then have "of_int 1 \<le> x / pow2 e" using pow2_pos[of e] by (simp add: pos_le_divide_eq)
    then have "1 \<le> m" unfolding m_def by (rule round_half_even_ge)
    then have "rat_of_int 1 \<le> of_int m" by (simp only: of_int_le_iff)
    then have "1 * pow2 e \<le> of_int m * pow2 e"
      using pow2_pos[of e] by (simp add: mult_le_cancel_right)
    moreover have "pow2 k \<le> pow2 e" using ek by (simp add: pow2_mono)
    ultimately show ?thesis unfolding y by simp
  qed
qed

lemma rd_lower:
  assumes "pow2 k \<le> x" and "- 1074 \<le> k"
  shows "rd x = PInf \<or> (\<exists>y. rd x = Fin y \<and> pow2 k \<le> y)"
proof -
  have pos: "0 < x" using assms(1) pow2_pos[of k] by simp
  show ?thesis
  proof (cases "round_magnitude x")
    case None
    then show ?thesis using pos by (simp add: rd_def)
  next
    case (Some y)
    then have "pow2 k \<le> y" using round_magnitude_lower[OF assms] by simp
    then show ?thesis using pos Some by (simp add: rd_def)
  qed
qed

lemma round_magnitude_nonneg:
  assumes "0 \<le> x" and "round_magnitude x = Some y"
  shows "0 \<le> y"
proof -
  have "0 \<le> x / pow2 (ulp_exponent x)" using assms(1) pow2_pos[of "ulp_exponent x"] by simp
  then have "of_int 0 \<le> x / pow2 (ulp_exponent x)" by simp
  then have "0 \<le> round_half_even (x / pow2 (ulp_exponent x))" by (rule round_half_even_ge)
  moreover have "0 \<le> pow2 (ulp_exponent x)" using pow2_pos[of "ulp_exponent x"] by simp
  ultimately show ?thesis
    using assms(2) by (auto simp: round_magnitude_def Let_def split: if_splits)
qed

lemma rd_nonneg:
  assumes "0 \<le> x"
  shows "rd x = PInf \<or> (\<exists>y. rd x = Fin y \<and> 0 \<le> y)"
proof (cases "x = 0")
  case True
  then show ?thesis by (simp add: rd_def)
next
  case False
  then have pos: "0 < x" using assms by simp
  show ?thesis
  proof (cases "round_magnitude x")
    case None
    then show ?thesis using pos by (simp add: rd_def)
  next
    case (Some y)
    then show ?thesis using pos round_magnitude_nonneg[OF assms Some] by (simp add: rd_def)
  qed
qed

text \<open>A positive double is at least the smallest subnormal number.\<close>

lemma double_positive_lower:
  assumes d: "is_double (Fin q)" and q: "0 < q"
  shows "pow2 (- 1074) \<le> q"
proof -
  obtain x where x: "Fin q = rd x" using d by (auto simp: is_double_def)
  have xpos: "0 < x"
  proof (rule ccontr)
    assume "\<not> 0 < x"
    then consider "x = 0" | "x < 0" by linarith
    then show False
    proof cases
      case 1
      then show ?thesis using x q by (simp add: rd_def)
    next
      case 2
      show ?thesis
      proof (cases "round_magnitude \<bar>x\<bar>")
        case None
        then show ?thesis using x 2 by (simp add: rd_def)
      next
        case (Some y)
        have "0 \<le> y" using round_magnitude_nonneg[OF _ Some] by simp
        then show ?thesis using x 2 Some q by (simp add: rd_def)
      qed
    qed
  qed
  then have r: "round_magnitude x = Some q"
    using x by (cases "round_magnitude x") (simp_all add: rd_def)
  define e where "e = ulp_exponent x"
  define m where "m = round_half_even (x / pow2 e)"
  have y: "q = of_int m * pow2 e"
    using r by (auto simp: round_magnitude_def Let_def e_def m_def split: if_splits)
  have "0 < rat_of_int m" using q pow2_pos[of e] unfolding y by (simp add: zero_less_mult_iff)
  then have "1 \<le> m" by simp
  then have "rat_of_int 1 \<le> of_int m" by (simp only: of_int_le_iff)
  then have "1 * pow2 e \<le> of_int m * pow2 e"
    using pow2_pos[of e] by (simp add: mult_le_cancel_right)
  moreover have "pow2 (- 1074) \<le> pow2 e"
    using ulp_exponent_lower[of x] unfolding e_def by (rule pow2_mono)
  ultimately show ?thesis unfolding y by simp
qed

lemma rd_zero: "rd 0 = Fin 0"
  by (simp add: rd_def)
section \<open>Facts about floats\<close>

lemma is_double_Rep: "is_double (Rep_pyfloat a)"
  using Rep_pyfloat[of a] by simp

lemma rd_two: "rd 2 = Fin 2"
  by code_simp

lemma rd_one: "rd 1 = Fin 1"
  by code_simp

lemma rd_hundred: "rd 100 = Fin 100"
  by code_simp

lemma rd_half: "rd (1 / 2) = Fin (1 / 2)"
  by code_simp

lemma rd_tenth: "rd (1 / 10) = Fin (3602879701896397 / 36028797018963968)"
  by code_simp

text \<open>A float above zero is the positive infinity or a positive double.\<close>

lemma fgt_zero_iff:
  "fgt p (float_of 0) =
     (Rep_pyfloat p = PInf \<or> (\<exists>q. Rep_pyfloat p = Fin q \<and> 0 < q))"
  by (cases "Rep_pyfloat p") (simp_all add: fgt_def flt.rep_eq float_of.rep_eq rd_zero)

lemma fgt_zero_nonzero:
  assumes "fgt p (float_of 0)"
  shows "p \<noteq> float_of 0"
proof
  assume "p = float_of 0"
  then have "Rep_pyfloat p = Fin 0" by (simp add: float_of.rep_eq rd_zero)
  then show False using assms by (simp add: fgt_zero_iff)
qed

lemma pow2_m1073: "pow2 (- 1073) = 2 * pow2 (- 1074)"
  using pow2_split[of "- 1074" "- 1073"] by simp

text \<open>The half of the sum of two floats above zero is above zero: the sum of two
  positive doubles is at least twice the smallest subnormal number, and rounding keeps it
  there.\<close>

lemma half_sum_positive:
  assumes a: "fgt a (float_of 0)" and b: "fgt b (float_of 0)"
  shows "fgt (fdiv (fadd a b) (float_of 2)) (float_of 0)"
proof -
  have sum: "add_repr (Rep_pyfloat a) (Rep_pyfloat b) = PInf \<or>
      (\<exists>y. add_repr (Rep_pyfloat a) (Rep_pyfloat b) = Fin y \<and> pow2 (- 1073) \<le> y)"
  proof (cases "Rep_pyfloat a = PInf \<or> Rep_pyfloat b = PInf")
    case True
    then show ?thesis
      using a b by (auto simp: fgt_zero_iff)
  next
    case False
    then obtain qa qb where qa: "Rep_pyfloat a = Fin qa" "0 < qa"
      and qb: "Rep_pyfloat b = Fin qb" "0 < qb"
      using a b by (auto simp: fgt_zero_iff)
    have "pow2 (- 1074) \<le> qa"
      using is_double_Rep[of a] qa by (simp add: double_positive_lower)
    moreover have "pow2 (- 1074) \<le> qb"
      using is_double_Rep[of b] qb by (simp add: double_positive_lower)
    ultimately have "pow2 (- 1073) \<le> qa + qb" unfolding pow2_m1073 by simp
    then have "rd (qa + qb) = PInf \<or> (\<exists>y. rd (qa + qb) = Fin y \<and> pow2 (- 1073) \<le> y)"
      by (rule rd_lower) simp
    then show ?thesis using qa qb by simp
  qed
  have "div_repr (add_repr (Rep_pyfloat a) (Rep_pyfloat b)) (Fin 2) = PInf \<or>
      (\<exists>z. div_repr (add_repr (Rep_pyfloat a) (Rep_pyfloat b)) (Fin 2) = Fin z \<and> 0 < z)"
  proof -
    from sum consider "add_repr (Rep_pyfloat a) (Rep_pyfloat b) = PInf"
      | y where "add_repr (Rep_pyfloat a) (Rep_pyfloat b) = Fin y" "pow2 (- 1073) \<le> y"
      by blast
    then show ?thesis
    proof cases
      case 1
      then show ?thesis by (simp add: inf_of_sign_def)
    next
      case 2
      have "pow2 (- 1074) \<le> y / 2" using 2(2) unfolding pow2_m1073 by simp
      then have "rd (y / 2) = PInf \<or> (\<exists>z. rd (y / 2) = Fin z \<and> pow2 (- 1074) \<le> z)"
        by (rule rd_lower) simp
      then show ?thesis using 2(1) pow2_pos[of "- 1074"] by auto
    qed
  qed
  then show ?thesis
    by (simp add: fgt_zero_iff fdiv.rep_eq fadd.rep_eq float_of.rep_eq rd_two)
qed

text \<open>A finite float above zero passes the test against itself: the difference is
  zero.\<close>

lemma within_deviation_self:
  assumes "is_finite m" and "fgt m (float_of 0)"
  shows "within_deviation m m"
proof -
  obtain q where q: "Rep_pyfloat m = Fin q" "0 < q"
    using assms by (cases "Rep_pyfloat m") (auto simp: fgt_zero_iff is_finite.rep_eq)
  then show ?thesis
    by (simp add: within_deviation_def MAX_PRICE_DEVIATION_def fle.rep_eq fmul.rep_eq
        fdiv.rep_eq fabs.rep_eq fsub.rep_eq float_of.rep_eq rd_zero rd_hundred rd_half)
qed

text \<open>The confidence of a success is above zero.\<close>

lemma success_confidence_positive:
  "fgt (py_round (fmin (float_of 1) (fadd (float_of (of_nat v / of_nat tot)) (float_of (1 / 10)))) 2)
       (float_of 0)"
proof -
  define d where "d = (3602879701896397 / 36028797018963968 :: rat)"
  define s where "s = add_repr (rd (of_nat v / of_nat tot)) (Fin d)"
  have p4: "pow2 (- 4) = 1 / 16" by (simp add: pow2_def)
  have p5: "pow2 (- 5) = 1 / 32" by (simp add: pow2_def)
  have base: "rd (of_nat v / of_nat tot) = PInf \<or>
      (\<exists>y. rd (of_nat v / of_nat tot) = Fin y \<and> 0 \<le> y)"
    by (rule rd_nonneg) simp
  have s: "s = PInf \<or> (\<exists>z. s = Fin z \<and> 1 / 16 \<le> z)"
  proof -
    from base consider "rd (of_nat v / of_nat tot) = PInf"
      | y where "rd (of_nat v / of_nat tot) = Fin y" "0 \<le> y"
      by blast
    then show ?thesis
    proof cases
      case 1
      then show ?thesis by (simp add: s_def)
    next
      case 2
      have "pow2 (- 4) \<le> y + d" using 2(2) unfolding p4 d_def by simp
      then have "rd (y + d) = PInf \<or> (\<exists>z. rd (y + d) = Fin z \<and> pow2 (- 4) \<le> z)"
        by (rule rd_lower) simp
      then show ?thesis using 2(1) unfolding p4 by (simp add: s_def)
    qed
  qed
  define w where "w = (if lt_repr s (Fin 1) then s else Fin 1)"
  have w: "\<exists>z. w = Fin z \<and> 1 / 16 \<le> z"
    using s unfolding w_def by auto
  then obtain z where z: "w = Fin z" "1 / 16 \<le> z" by blast
  have "rat_of_int 6 \<le> z * 10 ^ 2" using z(2) by simp
  then have "6 \<le> round_half_even (z * 10 ^ 2)" by (rule round_half_even_ge)
  then have "rat_of_int 6 \<le> of_int (round_half_even (z * 10 ^ 2))" by (simp only: of_int_le_iff)
  then have "pow2 (- 5) \<le> of_int (round_half_even (z * 10 ^ 2)) / 10 ^ 2"
    unfolding p5 by simp
  then have "rd (of_int (round_half_even (z * 10 ^ 2)) / 10 ^ 2) = PInf \<or>
      (\<exists>u. rd (of_int (round_half_even (z * 10 ^ 2)) / 10 ^ 2) = Fin u \<and> pow2 (- 5) \<le> u)"
    by (rule rd_lower) simp
  then have "round_repr w 2 = PInf \<or> (\<exists>u. round_repr w 2 = Fin u \<and> 0 < u)"
    unfolding z(1) p5 by auto
  moreover have "Rep_pyfloat (fmin (float_of 1) (fadd (float_of (of_nat v / of_nat tot))
      (float_of (1 / 10)))) = w"
    by (simp add: fmin_def w_def s_def d_def flt.rep_eq fadd.rep_eq float_of.rep_eq
        rd_one rd_tenth)
  ultimately show ?thesis
    by (simp add: fgt_zero_iff py_round_def float_round.rep_eq)
qed
section \<open>The consensus\<close>

subsection \<open>Median and mean\<close>

lemma set_insort_float: "set (insort_float x xs) = insert x (set xs)"
  by (induction xs) auto

lemma length_insort_float: "length (insort_float x xs) = Suc (length xs)"
  by (induction xs) auto

lemma set_sorted_float: "set (sorted_float xs) = set xs"
  by (induction xs) (simp_all add: set_insort_float)

lemma length_sorted_float: "length (sorted_float xs) = length xs"
  by (induction xs) (simp_all add: length_insort_float)

lemma sorted_float_eq_Nil: "(sorted_float xs = []) = (xs = [])"
proof -
  have "length (sorted_float xs) = length xs" by (rule length_sorted_float)
  then show ?thesis by (simp only: length_0_conv[symmetric])
qed

lemma median_unfold:
  "median xs =
     (if xs = [] then Inl StatisticsError
      else if length xs mod 2 = 1 then Inr (sorted_float xs ! (length xs div 2))
      else Inr (fdiv (fadd (sorted_float xs ! (length xs div 2 - 1))
                           (sorted_float xs ! (length xs div 2))) (float_of 2)))"
  by (simp add: median_def Let_def sorted_float_eq_Nil length_sorted_float)

lemma median_defined:
  assumes "prices \<noteq> []"
  shows "\<exists>m. median prices = Inr m"
  using assms by (cases "length prices mod 2 = 1") (simp_all add: median_unfold)

lemma sorted_nth_mem:
  assumes "i < length xs"
  shows "sorted_float xs ! i \<in> set xs"
proof -
  have "i < length (sorted_float xs)" using assms by (simp add: length_sorted_float)
  then have "sorted_float xs ! i \<in> set (sorted_float xs)" by (rule nth_mem)
  then show ?thesis by (simp add: set_sorted_float)
qed

text \<open>The median of floats above zero is above zero: it is one of them or the half
  of the sum of two of them.\<close>

lemma median_positive:
  assumes ne: "prices \<noteq> []" and pos: "\<forall>p\<in>set prices. fgt p (float_of 0)"
    and med: "median prices = Inr m"
  shows "fgt m (float_of 0)"
proof (cases "length prices mod 2 = 1")
  case True
  have "length prices div 2 < length prices" using ne by simp
  then have "sorted_float prices ! (length prices div 2) \<in> set prices" by (rule sorted_nth_mem)
  moreover have "m = sorted_float prices ! (length prices div 2)"
    using med ne True by (simp add: median_unfold)
  ultimately show ?thesis using pos by simp
next
  case False
  have a: "length prices div 2 < length prices" using ne by simp
  then have b: "length prices div 2 - 1 < length prices" by simp
  have "fgt (sorted_float prices ! (length prices div 2)) (float_of 0)"
    using sorted_nth_mem[OF a] pos by simp
  moreover have "fgt (sorted_float prices ! (length prices div 2 - 1)) (float_of 0)"
    using sorted_nth_mem[OF b] pos by simp
  moreover have
    "m = fdiv (fadd (sorted_float prices ! (length prices div 2 - 1))
                    (sorted_float prices ! (length prices div 2))) (float_of 2)"
    using med ne False by (simp add: median_unfold)
  ultimately show ?thesis by (simp add: half_sum_positive)
qed

lemma mean_defined:
  assumes "data \<noteq> []"
  shows "\<exists>mu. mean data = Inr mu"
proof -
  have "\<not> length data < 1" using assms by (cases data) simp_all
  then show ?thesis by (simp add: mean_def Let_def)
qed

subsection \<open>The filter\<close>

text \<open>On data with a median other than zero the function returns, and what it returns
  is decided by the retained prices.\<close>

lemma consensus_price_unfold:
  assumes ne: "prices \<noteq> []" and med: "median prices = Inr m" and nz: "m \<noteq> float_of 0"
  shows "consensus_price prices =
     (if filter (within_deviation m) prices = [] then Inr None
      else case mean (filter (within_deviation m) prices) of
             Inl e \<Rightarrow> Inl e
           | Inr mu \<Rightarrow> Inr (Some (py_round mu 2)))"
proof -
  have "\<not> length prices < MIN_VALID_SOURCES"
    using ne by (simp add: MIN_VALID_SOURCES_def)
  moreover have "length fs < MIN_VALID_SOURCES \<longleftrightarrow> fs = []" for fs :: "pyfloat list"
    by (cases fs) (simp_all add: MIN_VALID_SOURCES_def)
  ultimately show ?thesis
    using med nz by (simp add: consensus_price_def Let_def)
qed

lemma consensus_price_retained:
  assumes ne: "prices \<noteq> []" and med: "median prices = Inr m" and nz: "m \<noteq> float_of 0"
    and kept: "filter (within_deviation m) prices = kept" and kne: "kept \<noteq> []"
  shows "\<exists>mu. mean kept = Inr mu \<and> consensus_price prices = Inr (Some (py_round mu 2))"
proof -
  obtain mu where mu: "mean kept = Inr mu" using mean_defined[OF kne] by blast
  then have "consensus_price prices = Inr (Some (py_round mu 2))"
    using consensus_price_unfold[OF ne med nz] kept kne by simp
  then show ?thesis using mu by simp
qed

lemma consensus_price_odd:
  assumes od: "odd (length prices)"
    and pos: "\<forall>p\<in>set prices. is_finite p \<and> fgt p (float_of 0)"
  shows "\<exists>v. consensus_price prices = Inr (Some v)"
proof -
  have ne: "prices \<noteq> []" using od by auto
  have idx: "length prices div 2 < length prices" using ne by simp
  define m where "m = sorted_float prices ! (length prices div 2)"
  have mem: "m \<in> set prices" unfolding m_def using idx by (rule sorted_nth_mem)
  have "length prices mod 2 = 1" using od by presburger
  then have med: "median prices = Inr m"
    using ne by (simp add: median_unfold m_def)
  have mp: "fgt m (float_of 0)" and mf: "is_finite m" using mem pos by simp_all
  have nz: "m \<noteq> float_of 0" using mp by (rule fgt_zero_nonzero)
  have kne: "filter (within_deviation m) prices \<noteq> []"
    using mem within_deviation_self[OF mf mp] by (auto simp: filter_empty_conv)
  from consensus_price_retained[OF ne med nz refl kne] show ?thesis by blast
qed

subsection \<open>Some prices evaluated\<close>

lemma valid_150: "is_valid_price (Some (float_of 150))"
  by code_simp

lemma valid_200: "is_valid_price (Some (float_of 200))"
  by code_simp

lemma consensus_150_200: "consensus_price [float_of 150, float_of 200] = Inr None"
  by code_simp

lemma valid_100: "is_valid_price (Some (float_of 100))"
  by code_simp

lemma finite_150: "is_finite (float_of 150)"
  by code_simp

lemma finite_200: "is_finite (float_of 200)"
  by code_simp

subsection \<open>The claims about the consensus\<close>

lemma is_valid_price_Some: "is_valid_price (Some p) = fgt p (float_of 0)"
  by (simp add: is_valid_price_def)

text \<open>
  Claim C1, as amended. For every list of valid prices with at least
  \<^const>\<open>MIN_VALID_SOURCES\<close> elements, every one of which passes the deviation test of the
  code (the test evaluated in floating point, against the floating-point median),
  \<^const>\<open>consensus_price\<close> returns the floating-point mean of the whole list rounded to two
  decimals.
\<close>

theorem consensus_price_all_within:
  assumes valid: "\<forall>p\<in>set prices. is_valid_price (Some p)"
    and len: "MIN_VALID_SOURCES \<le> length prices"
    and med: "median prices = Inr m"
    and dev: "\<forall>p\<in>set prices. within_deviation m p"
  shows "\<exists>mu. mean prices = Inr mu \<and> consensus_price prices = Inr (Some (py_round mu 2))"
proof -
  have ne: "prices \<noteq> []" using len by (auto simp: MIN_VALID_SOURCES_def)
  have pos: "\<forall>p\<in>set prices. fgt p (float_of 0)"
    using valid by (simp add: is_valid_price_Some)
  have nz: "m \<noteq> float_of 0"
    using median_positive[OF ne pos med] by (rule fgt_zero_nonzero)
  have kept: "filter (within_deviation m) prices = prices" using dev by simp
  from consensus_price_retained[OF ne med nz kept ne] show ?thesis .
qed

text \<open>The readings 150.00 and 150.40: the median is 150.20, both pass the test, and the
  consensus is their mean 150.20.\<close>

theorem consensus_price_all_within_witness:
  "is_valid_price (Some (float_of 150)) \<and> is_valid_price (Some (float_of (752 / 5))) \<and>
   MIN_VALID_SOURCES \<le> length [float_of 150, float_of (752 / 5)] \<and>
   median [float_of 150, float_of (752 / 5)] = Inr (float_of (751 / 5)) \<and>
   within_deviation (float_of (751 / 5)) (float_of 150) \<and>
   within_deviation (float_of (751 / 5)) (float_of (752 / 5)) \<and>
   mean [float_of 150, float_of (752 / 5)] = Inr (float_of (751 / 5)) \<and>
   py_round (float_of (751 / 5)) 2 = float_of (751 / 5) \<and>
   consensus_price [float_of 150, float_of (752 / 5)] = Inr (Some (float_of (751 / 5)))"
proof -
  let ?prices = "[float_of 150, float_of (752 / 5)]"
  have v1: "is_valid_price (Some (float_of 150))" by code_simp
  have v2: "is_valid_price (Some (float_of (752 / 5)))" by code_simp
  have h1: "\<forall>p\<in>set ?prices. is_valid_price (Some p)" using v1 v2 by simp
  have h2: "MIN_VALID_SOURCES \<le> length ?prices" by (simp add: MIN_VALID_SOURCES_def)
  have h3: "median ?prices = Inr (float_of (751 / 5))" by code_simp
  have d1: "within_deviation (float_of (751 / 5)) (float_of 150)" by code_simp
  have d2: "within_deviation (float_of (751 / 5)) (float_of (752 / 5))" by code_simp
  have h4: "\<forall>p\<in>set ?prices. within_deviation (float_of (751 / 5)) p" using d1 d2 by simp
  have m: "mean ?prices = Inr (float_of (751 / 5))" by code_simp
  have r: "py_round (float_of (751 / 5)) 2 = float_of (751 / 5)" by code_simp
  from consensus_price_all_within [OF h1 h2 h3 h4]
  obtain mu where a: "mean ?prices = Inr mu"
    and b: "consensus_price ?prices = Inr (Some (py_round mu 2))"
    by blast
  from a m have "mu = float_of (751 / 5)" by (simp only: sum.inject)
  with b r have "consensus_price ?prices = Inr (Some (float_of (751 / 5)))" by (simp only:)
  then show ?thesis using v1 v2 h2 h3 d1 d2 m r by (intro conjI)
qed

text \<open>
  Claim C1 as it is stated, with the deviation from the median read in exact arithmetic,
  fails. For the doubles written 1.99 and 2.01 the exact median is just below 2 and both
  deviate from it by less than 0.5 percent; the mean is 2.0. The code computes the
  median 2.0, finds 1.99 more than 0.5 percent away from it, drops it and returns 2.01.
\<close>

theorem consensus_price_all_within_counterexample:
  "is_valid_price (Some (float_of (199 / 100))) \<and>
   is_valid_price (Some (float_of (201 / 100))) \<and>
   MIN_VALID_SOURCES \<le> length [float_of (199 / 100), float_of (201 / 100)] \<and>
   exact_deviation (exact_median (map exact_value [float_of (199 / 100), float_of (201 / 100)]))
     (exact_value (float_of (199 / 100))) \<le> 1 / 2 \<and>
   exact_deviation (exact_median (map exact_value [float_of (199 / 100), float_of (201 / 100)]))
     (exact_value (float_of (201 / 100))) \<le> 1 / 2 \<and>
   mean [float_of (199 / 100), float_of (201 / 100)] = Inr (float_of 2) \<and>
   py_round (float_of 2) 2 = float_of 2 \<and>
   consensus_price [float_of (199 / 100), float_of (201 / 100)] = Inr (Some (float_of (201 / 100))) \<and>
   float_of (201 / 100) \<noteq> float_of 2"
proof -
  let ?prices = "[float_of (199 / 100), float_of (201 / 100)]"
  have v1: "is_valid_price (Some (float_of (199 / 100)))" by code_simp
  have v2: "is_valid_price (Some (float_of (201 / 100)))" by code_simp
  have len: "MIN_VALID_SOURCES \<le> length ?prices" by (simp add: MIN_VALID_SOURCES_def)
  have e1: "exact_value (float_of (199 / 100)) = 8962163258467287 / 4503599627370496" by code_simp
  have e2: "exact_value (float_of (201 / 100)) = 1131529406376837 / 562949953421312" by code_simp
  have em: "exact_median (map exact_value ?prices) = (8962163258467287 / 4503599627370496 + 1131529406376837 / 562949953421312) / 2"
    by (simp add: e1 e2 exact_median_def)
  have x1: "exact_deviation (exact_median (map exact_value ?prices)) (exact_value (float_of (199 / 100))) \<le> 1 / 2"
    unfolding em e1 by (simp add: exact_deviation_def)
  have x2: "exact_deviation (exact_median (map exact_value ?prices)) (exact_value (float_of (201 / 100))) \<le> 1 / 2"
    unfolding em e2 by (simp add: exact_deviation_def)
  have mn: "mean ?prices = Inr (float_of 2)" by code_simp
  have rn: "py_round (float_of 2) 2 = float_of 2" by code_simp
  have med: "median ?prices = Inr (float_of 2)" by code_simp
  have nz: "float_of 2 \<noteq> float_of 0" by code_simp
  have t1: "\<not> within_deviation (float_of 2) (float_of (199 / 100))" by code_simp
  have t2: "within_deviation (float_of 2) (float_of (201 / 100))" by code_simp
  have kept: "filter (within_deviation (float_of 2)) ?prices = [float_of (201 / 100)]" by (simp add: t1 t2)
  have mk: "mean [float_of (201 / 100)] = Inr (float_of (201 / 100))" by code_simp
  have rk: "py_round (float_of (201 / 100)) 2 = float_of (201 / 100)" by code_simp
  from consensus_price_retained[OF _ med nz kept]
  obtain mu where "mean [float_of (201 / 100)] = Inr mu"
    and c: "consensus_price ?prices = Inr (Some (py_round mu 2))"
    by blast
  then have "mu = float_of (201 / 100)" using mk by (simp only: sum.inject)
  then have con: "consensus_price ?prices = Inr (Some (float_of (201 / 100)))" using c rk by (simp only:)
  have ne: "float_of (201 / 100) \<noteq> float_of 2" by code_simp
  show ?thesis using v1 v2 len x1 x2 mn rn con ne by (intro conjI)
qed

text \<open>
  Claim C2, as amended. For every list of valid prices in which one price fails the
  deviation test of the code (evaluated in floating point, against the floating-point
  median) and every other price passes it, there being at least one other price,
  \<^const>\<open>consensus_price\<close> leaves the one price out and returns the floating-point mean of
  the others rounded to two decimals.
\<close>

theorem consensus_price_one_outlier:
  assumes valid: "\<forall>p\<in>set (xs @ [outlier] @ ys). is_valid_price (Some p)"
    and med: "median (xs @ [outlier] @ ys) = Inr m"
    and out: "\<not> within_deviation m outlier"
    and clu: "\<forall>p\<in>set (xs @ ys). within_deviation m p"
    and cne: "xs @ ys \<noteq> []"
  shows "\<exists>mu. mean (xs @ ys) = Inr mu \<and>
          consensus_price (xs @ [outlier] @ ys) = Inr (Some (py_round mu 2))"
proof -
  let ?prices = "xs @ [outlier] @ ys"
  have ne: "?prices \<noteq> []" by simp
  have pos: "\<forall>p\<in>set ?prices. fgt p (float_of 0)"
    using valid by (simp add: is_valid_price_Some)
  have nz: "m \<noteq> float_of 0"
    using median_positive[OF ne pos med] by (rule fgt_zero_nonzero)
  have kept: "filter (within_deviation m) ?prices = xs @ ys"
    using clu out by simp
  from consensus_price_retained[OF ne med nz kept cne] show ?thesis .
qed

text \<open>The readings 150.00, 200.00 and 150.40, the outlier in the middle: the median
  is 150.40, and the consensus is the mean 150.20 of the first and the last.\<close>

theorem consensus_price_one_outlier_witness:
  "is_valid_price (Some (float_of 150)) \<and> is_valid_price (Some (float_of 200)) \<and>
   is_valid_price (Some (float_of (752 / 5))) \<and>
   median ([float_of 150] @ [float_of 200] @ [float_of (752 / 5)]) = Inr (float_of (752 / 5)) \<and>
   \<not> within_deviation (float_of (752 / 5)) (float_of 200) \<and>
   within_deviation (float_of (752 / 5)) (float_of 150) \<and>
   within_deviation (float_of (752 / 5)) (float_of (752 / 5)) \<and>
   [float_of 150] @ [float_of (752 / 5)] \<noteq> [] \<and>
   mean ([float_of 150] @ [float_of (752 / 5)]) = Inr (float_of (751 / 5)) \<and>
   py_round (float_of (751 / 5)) 2 = float_of (751 / 5) \<and>
   consensus_price [float_of 150, float_of 200, float_of (752 / 5)] = Inr (Some (float_of (751 / 5)))"
proof -
  have v1: "is_valid_price (Some (float_of 150))" by code_simp
  have v2: "is_valid_price (Some (float_of 200))" by code_simp
  have v3: "is_valid_price (Some (float_of (752 / 5)))" by code_simp
  have h1: "\<forall>p\<in>set ([float_of 150] @ [float_of 200] @ [float_of (752 / 5)]). is_valid_price (Some p)"
    using v1 v2 v3 by simp
  have h2: "median ([float_of 150] @ [float_of 200] @ [float_of (752 / 5)]) = Inr (float_of (752 / 5))" by code_simp
  have h3: "\<not> within_deviation (float_of (752 / 5)) (float_of 200)" by code_simp
  have d1: "within_deviation (float_of (752 / 5)) (float_of 150)" by code_simp
  have d2: "within_deviation (float_of (752 / 5)) (float_of (752 / 5))" by code_simp
  have h4: "\<forall>p\<in>set ([float_of 150] @ [float_of (752 / 5)]). within_deviation (float_of (752 / 5)) p"
    using d1 d2 by simp
  have h5: "[float_of 150] @ [float_of (752 / 5)] \<noteq> []" by simp
  have m: "mean ([float_of 150] @ [float_of (752 / 5)]) = Inr (float_of (751 / 5))" by code_simp
  have r: "py_round (float_of (751 / 5)) 2 = float_of (751 / 5)" by code_simp
  from consensus_price_one_outlier [OF h1 h2 h3 h4 h5]
  obtain mu where a: "mean ([float_of 150] @ [float_of (752 / 5)]) = Inr mu"
    and b: "consensus_price ([float_of 150] @ [float_of 200] @ [float_of (752 / 5)]) = Inr (Some (py_round mu 2))"
    by blast
  from a m have "mu = float_of (751 / 5)" by (simp only: sum.inject)
  with b r have "consensus_price ([float_of 150] @ [float_of 200] @ [float_of (752 / 5)]) = Inr (Some (float_of (751 / 5)))"
    by (simp only:)
  then have c: "consensus_price [float_of 150, float_of 200, float_of (752 / 5)] = Inr (Some (float_of (751 / 5)))"
    by (simp only: append.simps)
  show ?thesis using v1 v2 v3 h2 h3 d1 d2 h5 m r c by (intro conjI)
qed

text \<open>
  Claim C2 as it is stated, with the deviations from the median read in exact arithmetic,
  fails. Of the doubles written 7.97, 15.92, 8.03 and 7.96 only 15.92 deviates from the
  exact median by more than 0.5 percent; the mean of the other three rounds to 7.99. The
  code computes the median 8.0, finds 7.96 more than 0.5 percent away from it as well,
  drops both and returns 8.0, the mean of 7.97 and 8.03.
\<close>

theorem consensus_price_one_outlier_counterexample:
  "is_valid_price (Some (float_of (797 / 100))) \<and> is_valid_price (Some (float_of (398 / 25))) \<and>
   is_valid_price (Some (float_of (803 / 100))) \<and> is_valid_price (Some (float_of (199 / 25))) \<and>
   1 / 2 < exact_deviation (exact_median (map exact_value [float_of (797 / 100), float_of (398 / 25), float_of (803 / 100), float_of (199 / 25)])) (exact_value (float_of (398 / 25))) \<and>
   exact_deviation (exact_median (map exact_value [float_of (797 / 100), float_of (398 / 25), float_of (803 / 100), float_of (199 / 25)])) (exact_value (float_of (797 / 100))) \<le> 1 / 2 \<and>
   exact_deviation (exact_median (map exact_value [float_of (797 / 100), float_of (398 / 25), float_of (803 / 100), float_of (199 / 25)])) (exact_value (float_of (803 / 100))) \<le> 1 / 2 \<and>
   exact_deviation (exact_median (map exact_value [float_of (797 / 100), float_of (398 / 25), float_of (803 / 100), float_of (199 / 25)])) (exact_value (float_of (199 / 25))) \<le> 1 / 2 \<and>
   mean [float_of (797 / 100), float_of (803 / 100), float_of (199 / 25)] = Inr (float_of (3993333333333333 / 500000000000000)) \<and>
   py_round (float_of (3993333333333333 / 500000000000000)) 2 = float_of (799 / 100) \<and>
   consensus_price [float_of (797 / 100), float_of (398 / 25), float_of (803 / 100), float_of (199 / 25)] = Inr (Some (float_of 8)) \<and>
   float_of 8 \<noteq> float_of (799 / 100)"
proof -
  let ?prices = "[float_of (797 / 100), float_of (398 / 25), float_of (803 / 100), float_of (199 / 25)]"
  have v1: "is_valid_price (Some (float_of (797 / 100)))" by code_simp
  have v2: "is_valid_price (Some (float_of (398 / 25)))" by code_simp
  have v3: "is_valid_price (Some (float_of (803 / 100)))" by code_simp
  have v4: "is_valid_price (Some (float_of (199 / 25)))" by code_simp
  have e1: "exact_value (float_of (797 / 100)) = 8973422257535713 / 1125899906842624" by code_simp
  have e2: "exact_value (float_of (398 / 25)) = 8962163258467287 / 562949953421312" by code_simp
  have e3: "exact_value (float_of (803 / 100)) = 4520488125973135 / 562949953421312" by code_simp
  have e4: "exact_value (float_of (199 / 25)) = 8962163258467287 / 1125899906842624" by code_simp
  have em: "exact_median (map exact_value ?prices) = (8973422257535713 / 1125899906842624 + 4520488125973135 / 562949953421312) / 2"
    by (simp add: e1 e2 e3 e4 exact_median_def)
  have x2: "1 / 2 < exact_deviation (exact_median (map exact_value ?prices)) (exact_value (float_of (398 / 25)))"
    unfolding em e2 by (simp add: exact_deviation_def)
  have x1: "exact_deviation (exact_median (map exact_value ?prices)) (exact_value (float_of (797 / 100))) \<le> 1 / 2"
    unfolding em e1 by (simp add: exact_deviation_def)
  have x3: "exact_deviation (exact_median (map exact_value ?prices)) (exact_value (float_of (803 / 100))) \<le> 1 / 2"
    unfolding em e3 by (simp add: exact_deviation_def)
  have x4: "exact_deviation (exact_median (map exact_value ?prices)) (exact_value (float_of (199 / 25))) \<le> 1 / 2"
    unfolding em e4 by (simp add: exact_deviation_def)
  have mn: "mean [float_of (797 / 100), float_of (803 / 100), float_of (199 / 25)] = Inr (float_of (3993333333333333 / 500000000000000))" by code_simp
  have rn: "py_round (float_of (3993333333333333 / 500000000000000)) 2 = float_of (799 / 100)" by code_simp
  have med: "median ?prices = Inr (float_of 8)" by code_simp
  have nz: "float_of 8 \<noteq> float_of 0" by code_simp
  have t1: "within_deviation (float_of 8) (float_of (797 / 100))" by code_simp
  have t2: "\<not> within_deviation (float_of 8) (float_of (398 / 25))" by code_simp
  have t3: "within_deviation (float_of 8) (float_of (803 / 100))" by code_simp
  have t4: "\<not> within_deviation (float_of 8) (float_of (199 / 25))" by code_simp
  have kept: "filter (within_deviation (float_of 8)) ?prices = [float_of (797 / 100), float_of (803 / 100)]"
    by (simp add: t1 t2 t3 t4)
  have mk: "mean [float_of (797 / 100), float_of (803 / 100)] = Inr (float_of 8)" by code_simp
  have rk: "py_round (float_of 8) 2 = float_of 8" by code_simp
  from consensus_price_retained[OF _ med nz kept]
  obtain mu where "mean [float_of (797 / 100), float_of (803 / 100)] = Inr mu"
    and c: "consensus_price ?prices = Inr (Some (py_round mu 2))"
    by blast
  then have "mu = float_of 8" using mk by (simp only: sum.inject)
  then have con: "consensus_price ?prices = Inr (Some (float_of 8))"
    using c rk by (simp only:)
  have ne: "float_of 8 \<noteq> float_of (799 / 100)" by code_simp
  show ?thesis using v1 v2 v3 v4 x2 x1 x3 x4 mn rn con ne by (intro conjI)
qed

text \<open>
  Claim C9. For every list of strictly positive prices that is not empty, the median is
  defined and strictly positive, so the division by the median in the filter is defined
  and \<^const>\<open>consensus_price\<close> does not raise \<^const>\<open>ZeroDivisionError\<close>. The prices
  that \<^const>\<open>gather\<close> hands over are of this kind (lemma \<open>valid_readings_positive\<close> below).
\<close>

theorem median_positive_no_zero_division:
  assumes ne: "prices \<noteq> []" and pos: "\<forall>p\<in>set prices. fgt p (float_of 0)"
  shows "\<exists>m. median prices = Inr m \<and> fgt m (float_of 0) \<and>
           consensus_price prices \<noteq> Inl ZeroDivisionError"
proof -
  obtain m where med: "median prices = Inr m" using median_defined[OF ne] by blast
  have mp: "fgt m (float_of 0)" using median_positive[OF ne pos med] .
  then have nz: "m \<noteq> float_of 0" by (rule fgt_zero_nonzero)
  have "consensus_price prices \<noteq> Inl ZeroDivisionError"
  proof (cases "filter (within_deviation m) prices = []")
    case True
    then show ?thesis using consensus_price_unfold[OF ne med nz] by simp
  next
    case False
    from consensus_price_retained[OF ne med nz refl False] show ?thesis by auto
  qed
  then show ?thesis using med mp by simp
qed

text \<open>The readings 150.00 and 200.00: the median 175.00 is positive, and the function
  returns (no price) instead of raising.\<close>

theorem median_positive_no_zero_division_witness:
  "[float_of 150, float_of 200] \<noteq> [] \<and>
   fgt (float_of 150) (float_of 0) \<and> fgt (float_of 200) (float_of 0) \<and>
   median [float_of 150, float_of 200] = Inr (float_of 175) \<and>
   fgt (float_of 175) (float_of 0) \<and>
   consensus_price [float_of 150, float_of 200] \<noteq> Inl ZeroDivisionError"
proof -
  have h1: "[float_of 150, float_of 200] \<noteq> []" by simp
  have p1: "fgt (float_of 150) (float_of 0)"
    using valid_150 by (simp add: is_valid_price_Some)
  have p2: "fgt (float_of 200) (float_of 0)"
    using valid_200 by (simp add: is_valid_price_Some)
  have h2: "\<forall>p\<in>set [float_of 150, float_of 200]. fgt p (float_of 0)"
    using p1 p2 by simp
  have m: "median [float_of 150, float_of 200] = Inr (float_of 175)" by code_simp
  from median_positive_no_zero_division [OF h1 h2]
  obtain m' where a: "median [float_of 150, float_of 200] = Inr m'"
    and b: "fgt m' (float_of 0)"
    and c: "consensus_price [float_of 150, float_of 200] \<noteq> Inl ZeroDivisionError"
    by blast
  from a m have "m' = float_of 175" by (simp only: sum.inject)
  with b have d: "fgt (float_of 175) (float_of 0)" by (simp only:)
  show ?thesis using h1 p1 p2 m d c by (intro conjI)
qed

section \<open>The engine\<close>

subsection \<open>The data gathering loop\<close>

lemma update_fresh:
  assumes "k \<notin> fst ` set al"
  shows "AList.update k v al = al @ [(k, v)]"
  using assms by (induction al) auto

lemma update_all_failed:
  assumes "\<forall>e\<in>set al. snd e = FAILED"
  shows "set (AList.update k FAILED al) = insert (k, FAILED) (set al)"
  using assms by (induction al) auto

lemma gather_raw_prices:
  "raw_prices (gather srcs ticker st) = raw_prices st @ valid_readings srcs ticker"
  by (induction srcs arbitrary: st) (simp_all add: valid_readings_def Let_def)

lemma gather_valid_count:
  "valid_count (gather srcs ticker st) = valid_count st + length (valid_readings srcs ticker)"
  by (induction srcs arbitrary: st) (simp_all add: valid_readings_def Let_def)

text \<open>With names that differ from each other and from the keys already present, every
  source adds its own entry at the end.\<close>

lemma gather_source_map:
  assumes "distinct (map name srcs)"
    and "set (map name srcs) \<inter> fst ` set (source_map st) = {}"
  shows "source_map (gather srcs ticker st) = source_map st @ per_source_map srcs ticker"
  using assms
proof (induction srcs arbitrary: st)
  case Nil
  then show ?case by (simp add: per_source_map_def)
next
  case (Cons s rest)
  let ?v = "reading_value (fetch s ticker)"
  let ?st' = "if is_valid_price (fetch s ticker)
            then \<lparr>raw_prices = raw_prices st @ [the (fetch s ticker)],
                  source_map = AList.update (name s) (Price (the (fetch s ticker))) (source_map st),
                  valid_count = valid_count st + 1\<rparr>
            else st\<lparr>source_map := AList.update (name s) FAILED (source_map st)\<rparr>"
  have fresh: "name s \<notin> fst ` set (source_map st)" using Cons.prems(2) by auto
  have sm: "source_map ?st' = source_map st @ [(name s, ?v)]"
    using update_fresh[OF fresh] by (simp add: reading_value_def)
  have d: "distinct (map name rest)" using Cons.prems(1) by simp
  have "set (map name rest) \<inter> fst ` set (source_map ?st') = {}"
    using Cons.prems unfolding sm by auto
  from Cons.IH[OF d this]
  have "source_map (gather rest ticker ?st') = source_map ?st' @ per_source_map rest ticker" .
  then show ?case unfolding sm by (simp add: Let_def per_source_map_def)
qed

text \<open>When no reading is valid, the map holds the marker under every name and nothing
  else, whatever the names are.\<close>

lemma gather_source_map_failed:
  assumes "\<forall>s\<in>set srcs. \<not> is_valid_price (fetch s ticker)"
    and "\<forall>e\<in>set (source_map st). snd e = FAILED"
  shows "set (source_map (gather srcs ticker st)) =
         set (source_map st) \<union> (\<lambda>s. (name s, FAILED)) ` set srcs"
  using assms
proof (induction srcs arbitrary: st)
  case Nil
  then show ?case by simp
next
  case (Cons s rest)
  let ?st' = "st\<lparr>source_map := AList.update (name s) FAILED (source_map st)\<rparr>"
  have inv: "\<not> is_valid_price (fetch s ticker)" using Cons.prems(1) by simp
  have sm: "set (source_map ?st') = insert (name s, FAILED) (set (source_map st))"
    using update_all_failed[OF Cons.prems(2)] by simp
  have a: "\<forall>s\<in>set rest. \<not> is_valid_price (fetch s ticker)" using Cons.prems(1) by simp
  have b: "\<forall>e\<in>set (source_map ?st'). snd e = FAILED"
    using Cons.prems(2) unfolding sm by simp
  have "gather (s # rest) ticker st = gather rest ticker ?st'"
    using inv by (simp add: Let_def)
  then show ?case using Cons.IH[OF a b] unfolding sm by auto
qed

lemma valid_readings_positive:
  "\<forall>p\<in>set (valid_readings srcs ticker). fgt p (float_of 0)"
  by (auto simp: valid_readings_def is_valid_price_def)

lemma valid_readings_length: "length (valid_readings srcs ticker) \<le> length srcs"
proof -
  have "length (filter is_valid_price (map (\<lambda>s. fetch s ticker) srcs)) \<le>
        length (map (\<lambda>s. fetch s ticker) srcs)"
    by (rule length_filter_le)
  then show ?thesis by (simp add: valid_readings_def)
qed

lemma valid_readings_empty:
  assumes "valid_readings srcs ticker = []"
  shows "\<forall>s\<in>set srcs. \<not> is_valid_price (fetch s ticker)"
  using assms by (auto simp: valid_readings_def filter_empty_conv)

lemma gather_init_raw_prices:
  "raw_prices (gather srcs ticker gather_init) = valid_readings srcs ticker"
  by (simp add: gather_raw_prices gather_init_def)

lemma gather_init_valid_count:
  "valid_count (gather srcs ticker gather_init) = length (valid_readings srcs ticker)"
  by (simp add: gather_valid_count gather_init_def)

lemma gather_init_source_map:
  assumes "distinct (map name srcs)"
  shows "source_map (gather srcs ticker gather_init) = per_source_map srcs ticker"
proof -
  have "set (map name srcs) \<inter> fst ` set (source_map gather_init) = {}"
    by (simp add: gather_init_def)
  from gather_source_map[OF assms this] show ?thesis by (simp add: gather_init_def)
qed

lemma gather_init_source_map_failed:
  assumes "valid_readings srcs ticker = []"
  shows "set (source_map (gather srcs ticker gather_init)) = (\<lambda>s. (name s, FAILED)) ` set srcs"
proof -
  have "\<forall>e\<in>set (source_map gather_init). snd e = FAILED"
    by (simp add: gather_init_def)
  from gather_source_map_failed[OF valid_readings_empty[OF assms] this]
  show ?thesis by (simp add: gather_init_def)
qed

lemma per_source_map_keys: "map fst (per_source_map srcs ticker) = map name srcs"
  by (simp add: per_source_map_def comp_def)

subsection \<open>The three outcomes of a call\<close>

lemma engine_error_eq: "engine_error code msg stamp m = Failure code msg stamp m"
  by (simp add: engine_error_def)

lemma confidence_score_eq:
  assumes "tot \<noteq> 0"
  shows "confidence_score v tot True =
         Inr (py_round (fmin (float_of 1)
                (fadd (float_of (of_nat v / of_nat tot)) (float_of (1 / 10)))) 2)"
  using assms by (simp add: confidence_score_def)

lemma fetch_price_insufficient:
  assumes "length (valid_readings srcs ticker) < MIN_VALID_SOURCES"
  shows "fetch_price (engine_of srcs) now stamp ticker =
     Inr (Failure ''INSUFFICIENT_DATA''
           (''Requires '' @ str_nat MIN_VALID_SOURCES @ '' reliable sources, but only found '' @
            str_nat (length (valid_readings srcs ticker)))
           stamp (source_map (gather srcs ticker gather_init)))"
  using assms
  by (simp add: fetch_price_def Let_def engine_of_def gather_init_valid_count engine_error_eq)

lemma fetch_price_low_confidence:
  assumes "MIN_VALID_SOURCES \<le> length (valid_readings srcs ticker)"
    and "consensus_price (valid_readings srcs ticker) = Inr None"
  shows "fetch_price (engine_of srcs) now stamp ticker =
     Inr (Failure ''LOW_CONFIDENCE'' ''Prices deviated by more than 0.5%. Check raw prices.''
           stamp (source_map (gather srcs ticker gather_init)))"
  using assms
  by (simp add: fetch_price_def Let_def engine_of_def gather_init_valid_count
      gather_init_raw_prices engine_error_eq)

lemma fetch_price_success:
  assumes len: "MIN_VALID_SOURCES \<le> length (valid_readings srcs ticker)"
    and con: "consensus_price (valid_readings srcs ticker) = Inr (Some final_price)"
  shows "fetch_price (engine_of srcs) now stamp ticker =
     Inr (Success (upper ticker) final_price
           (py_round (fmin (float_of 1)
              (fadd (float_of (of_nat (length (valid_readings srcs ticker)) / of_nat (length srcs)))
                    (float_of (1 / 10)))) 2)
           (map fst (filter (\<lambda>(k, v). v \<noteq> FAILED) (source_map (gather srcs ticker gather_init))))
           (source_map (gather srcs ticker gather_init))
           (if market_is_open now then ''OPEN'' else ''CLOSED'') stamp ''LIVE'')"
proof -
  have "valid_readings srcs ticker \<noteq> []"
    using len by (auto simp: MIN_VALID_SOURCES_def)
  then have "length srcs \<noteq> 0"
    using valid_readings_length[of srcs ticker] by auto
  then have cs: "confidence_score (length (valid_readings srcs ticker)) (length srcs) True =
      Inr (py_round (fmin (float_of 1)
             (fadd (float_of (of_nat (length (valid_readings srcs ticker)) / of_nat (length srcs)))
                   (float_of (1 / 10)))) 2)"
    by (rule confidence_score_eq)
  show ?thesis
    using len con cs
    by (simp add: fetch_price_def Let_def engine_of_def gather_init_valid_count
        gather_init_raw_prices)
qed

text \<open>The consensus over the valid readings does not raise.\<close>

lemma consensus_price_valid_readings:
  assumes "MIN_VALID_SOURCES \<le> length (valid_readings srcs ticker)"
  shows "\<exists>r. consensus_price (valid_readings srcs ticker) = Inr r"
proof -
  let ?rp = "valid_readings srcs ticker"
  have ne: "?rp \<noteq> []" using assms by (auto simp: MIN_VALID_SOURCES_def)
  obtain m where med: "median ?rp = Inr m" using median_defined[OF ne] by blast
  have "fgt m (float_of 0)" using median_positive[OF ne valid_readings_positive med] .
  then have nz: "m \<noteq> float_of 0" by (rule fgt_zero_nonzero)
  show ?thesis
  proof (cases "filter (within_deviation m) ?rp = []")
    case True
    then show ?thesis using consensus_price_unfold[OF ne med nz] by simp
  next
    case False
    from consensus_price_retained[OF ne med nz refl False] show ?thesis by blast
  qed
qed

text \<open>Every call returns, in one of three ways.\<close>

lemma fetch_price_outcomes:
  "(length (valid_readings srcs ticker) < MIN_VALID_SOURCES \<and>
    fetch_price (engine_of srcs) now stamp ticker =
     Inr (Failure ''INSUFFICIENT_DATA''
           (''Requires '' @ str_nat MIN_VALID_SOURCES @ '' reliable sources, but only found '' @
            str_nat (length (valid_readings srcs ticker)))
           stamp (source_map (gather srcs ticker gather_init)))) \<or>
   (MIN_VALID_SOURCES \<le> length (valid_readings srcs ticker) \<and>
    consensus_price (valid_readings srcs ticker) = Inr None \<and>
    fetch_price (engine_of srcs) now stamp ticker =
     Inr (Failure ''LOW_CONFIDENCE'' ''Prices deviated by more than 0.5%. Check raw prices.''
           stamp (source_map (gather srcs ticker gather_init)))) \<or>
   (\<exists>final_price. MIN_VALID_SOURCES \<le> length (valid_readings srcs ticker) \<and>
    consensus_price (valid_readings srcs ticker) = Inr (Some final_price) \<and>
    fetch_price (engine_of srcs) now stamp ticker =
     Inr (Success (upper ticker) final_price
           (py_round (fmin (float_of 1)
              (fadd (float_of (of_nat (length (valid_readings srcs ticker)) / of_nat (length srcs)))
                    (float_of (1 / 10)))) 2)
           (map fst (filter (\<lambda>(k, v). v \<noteq> FAILED) (source_map (gather srcs ticker gather_init))))
           (source_map (gather srcs ticker gather_init))
           (if market_is_open now then ''OPEN'' else ''CLOSED'') stamp ''LIVE''))"
proof (cases "length (valid_readings srcs ticker) < MIN_VALID_SOURCES")
  case True
  then show ?thesis using fetch_price_insufficient[OF True] by blast
next
  case False
  then have len: "MIN_VALID_SOURCES \<le> length (valid_readings srcs ticker)" by simp
  obtain r where r: "consensus_price (valid_readings srcs ticker) = Inr r"
    using consensus_price_valid_readings[OF len] by blast
  show ?thesis
  proof (cases r)
    case None
    then show ?thesis using fetch_price_low_confidence[OF len] r len by blast
  next
    case (Some p)
    then show ?thesis using fetch_price_success[OF len] r len by blast
  qed
qed

lemma fetch_price_returns:
  "\<exists>r. fetch_price (engine_of srcs) now stamp ticker = Inr r \<and>
        source_prices r = source_map (gather srcs ticker gather_init)"
  using fetch_price_outcomes[of srcs ticker now stamp] by auto

subsection \<open>Two calls evaluated\<close>

text \<open>One valid reading of 150.00 out of two sources, at a time when the market is
  closed: a success with confidence 0.60.\<close>

lemma fetch_price_one_of_two:
  "fetch_price (engine_of [YahooSource (\<lambda>_. Some (float_of 150)), StooqSource (\<lambda>_. None)])
       0 ''T'' ''aapl'' =
     Inr (Success ''AAPL'' (float_of 150) (float_of (3 / 5)) [''YahooFinance'']
           [(''YahooFinance'', Price (float_of 150)), (''Stooq'', FAILED)]
           ''CLOSED'' ''T'' ''LIVE'')"
  by code_simp

text \<open>No answer from either provider.\<close>

lemma fetch_price_none_of_two:
  "fetch_price (engine_of [YahooSource (\<lambda>_. None), StooqSource (\<lambda>_. None)]) 0 ''T'' ''aapl'' =
     Inr (Failure ''INSUFFICIENT_DATA'' ''Requires 1 reliable sources, but only found 0'' ''T''
           [(''YahooFinance'', FAILED), (''Stooq'', FAILED)])"
  by code_simp

section \<open>The results of a call\<close>

text \<open>
  Claim C3. Whenever a call ends in a success, with \<open>validCount\<close> valid readings among
  the \<open>totalSources\<close> registered sources, the confidence of the result is
  \<open>min(1.0, validCount / totalSources + 0.1)\<close> rounded to two decimals.
\<close>

theorem fetch_price_success_confidence:
  assumes "fetch_price (engine_of srcs) now stamp ticker = Inr r"
    and "is_Success r"
  shows "confidence r =
     py_round (fmin (float_of 1)
       (fadd (float_of (of_nat (length (valid_readings srcs ticker)) /
                        of_nat (total_sources (engine_of srcs))))
             (float_of (1 / 10)))) 2"
proof -
  have t: "total_sources (engine_of srcs) = length srcs" by (simp add: engine_of_def)
  from fetch_price_outcomes[of srcs ticker now stamp] assms show ?thesis
    unfolding t by auto
qed

text \<open>One valid reading of 150.00 out of two sources: the confidence is 0.60.\<close>

theorem fetch_price_success_confidence_witness:
  "fetch_price (engine_of [YahooSource (\<lambda>_. Some (float_of 150)), StooqSource (\<lambda>_. None)])
       0 ''T'' ''aapl'' =
     Inr (Success ''AAPL'' (float_of 150) (float_of (3 / 5)) [''YahooFinance'']
           [(''YahooFinance'', Price (float_of 150)), (''Stooq'', FAILED)]
           ''CLOSED'' ''T'' ''LIVE'') \<and>
   is_Success (Success ''AAPL'' (float_of 150) (float_of (3 / 5)) [''YahooFinance'']
           [(''YahooFinance'', Price (float_of 150)), (''Stooq'', FAILED)]
           ''CLOSED'' ''T'' ''LIVE'') \<and>
   py_round (fmin (float_of 1)
     (fadd (float_of (of_nat (length (valid_readings
              [YahooSource (\<lambda>_. Some (float_of 150)), StooqSource (\<lambda>_. None)] ''aapl'')) /
            of_nat (total_sources (engine_of
              [YahooSource (\<lambda>_. Some (float_of 150)), StooqSource (\<lambda>_. None)]))))
           (float_of (1 / 10)))) 2 = float_of (3 / 5)"
proof -
  let ?srcs = "[YahooSource (\<lambda>_. Some (float_of 150)), StooqSource (\<lambda>_. None)]"
  let ?r = "Success ''AAPL'' (float_of 150) (float_of (3 / 5)) [''YahooFinance'']
           [(''YahooFinance'', Price (float_of 150)), (''Stooq'', FAILED)]
           ''CLOSED'' ''T'' ''LIVE''"
  have h1: "fetch_price (engine_of ?srcs) 0 ''T'' ''aapl'' = Inr ?r"
    by (rule fetch_price_one_of_two)
  have h2: "is_Success ?r" by simp
  have "confidence ?r = float_of (3 / 5)" by simp
  with fetch_price_success_confidence [OF h1 h2]
  have "py_round (fmin (float_of 1)
     (fadd (float_of (of_nat (length (valid_readings ?srcs ''aapl'')) /
            of_nat (total_sources (engine_of ?srcs))))
           (float_of (1 / 10)))) 2 = float_of (3 / 5)"
    by (simp only:)
  with h1 h2 show ?thesis by (intro conjI)
qed

text \<open>
  Claim C4. Whenever the number of valid readings is below \<^const>\<open>MIN_VALID_SOURCES\<close>,
  the call ends in the failure \<^verbatim>\<open>INSUFFICIENT_DATA\<close>; its message gives the required and
  the found number, and its per-source map holds, under the name of every registered
  source, the marker of a failed reading, and nothing else.
\<close>

theorem fetch_price_insufficient_data:
  assumes "length (valid_readings srcs ticker) < MIN_VALID_SOURCES"
  shows "\<exists>m. fetch_price (engine_of srcs) now stamp ticker =
           Inr (Failure ''INSUFFICIENT_DATA''
                 (''Requires '' @ str_nat MIN_VALID_SOURCES @
                  '' reliable sources, but only found '' @
                  str_nat (length (valid_readings srcs ticker)))
                 stamp m) \<and>
           set m = (\<lambda>s. (name s, FAILED)) ` set srcs"
proof -
  have "valid_readings srcs ticker = []"
    using assms by (simp add: MIN_VALID_SOURCES_def)
  then have "set (source_map (gather srcs ticker gather_init)) =
             (\<lambda>s. (name s, FAILED)) ` set srcs"
    by (rule gather_init_source_map_failed)
  then show ?thesis using fetch_price_insufficient[OF assms] by blast
qed

text \<open>No answer from the first provider and a negative number from the second.\<close>

theorem fetch_price_insufficient_data_witness:
  "length (valid_readings [YahooSource (\<lambda>_. None), StooqSource (\<lambda>_. Some (float_of (- 3)))]
      ''aapl'') < MIN_VALID_SOURCES \<and>
   fetch_price (engine_of [YahooSource (\<lambda>_. None), StooqSource (\<lambda>_. Some (float_of (- 3)))])
       0 ''T'' ''aapl'' =
     Inr (Failure ''INSUFFICIENT_DATA'' ''Requires 1 reliable sources, but only found 0'' ''T''
           [(''YahooFinance'', FAILED), (''Stooq'', FAILED)])"
proof -
  let ?srcs = "[YahooSource (\<lambda>_. None), StooqSource (\<lambda>_. Some (float_of (- 3)))]"
  have h: "length (valid_readings ?srcs ''aapl'') < MIN_VALID_SOURCES"
    by code_simp
  have e: "fetch_price (engine_of ?srcs) 0 ''T'' ''aapl'' =
     Inr (Failure ''INSUFFICIENT_DATA'' ''Requires 1 reliable sources, but only found 0'' ''T''
           [(''YahooFinance'', FAILED), (''Stooq'', FAILED)])"
    by code_simp
  from fetch_price_insufficient_data [OF h, of 0 "''T''"] h e show ?thesis by blast
qed

text \<open>
  Claim C5. Whenever there are at least \<^const>\<open>MIN_VALID_SOURCES\<close> valid readings and the
  consensus over them yields no price, the call ends in the failure \<^verbatim>\<open>LOW_CONFIDENCE\<close>,
  whose message names the allowed deviation of 0.5 percent. The engine whose two
  providers answer 150.00 and 200.00 ends so.
\<close>

theorem fetch_price_low_confidence_failure:
  "(MIN_VALID_SOURCES \<le> length (valid_readings srcs ticker) \<and>
    consensus_price (valid_readings srcs ticker) = Inr None \<longrightarrow>
    (\<exists>m. fetch_price (engine_of srcs) now stamp ticker =
       Inr (Failure ''LOW_CONFIDENCE''
             ''Prices deviated by more than 0.5%. Check raw prices.'' stamp m))) \<and>
   fetch_price (StockPriceEngine_init (\<lambda>_. Some (float_of 150)) (\<lambda>_. Some (float_of 200)))
       now' stamp' ticker' =
     Inr (Failure ''LOW_CONFIDENCE''
           ''Prices deviated by more than 0.5%. Check raw prices.'' stamp'
           [(''YahooFinance'', Price (float_of 150)), (''Stooq'', Price (float_of 200))])"
proof
  show "MIN_VALID_SOURCES \<le> length (valid_readings srcs ticker) \<and>
    consensus_price (valid_readings srcs ticker) = Inr None \<longrightarrow>
    (\<exists>m. fetch_price (engine_of srcs) now stamp ticker =
       Inr (Failure ''LOW_CONFIDENCE''
             ''Prices deviated by more than 0.5%. Check raw prices.'' stamp m))"
    using fetch_price_low_confidence[of srcs ticker now stamp] by blast
next
  let ?srcs = "[YahooSource (\<lambda>_. Some (float_of 150)), StooqSource (\<lambda>_. Some (float_of 200))]"
  have vr: "valid_readings ?srcs ticker' = [float_of 150, float_of 200]"
    by (simp add: valid_readings_def YahooSource_def StooqSource_def valid_150 valid_200)
  have len: "MIN_VALID_SOURCES \<le> length (valid_readings ?srcs ticker')"
    unfolding vr by (simp add: MIN_VALID_SOURCES_def)
  have con: "consensus_price (valid_readings ?srcs ticker') = Inr None"
    unfolding vr by (rule consensus_150_200)
  have "distinct (map name ?srcs)"
    by (simp add: YahooSource_def StooqSource_def)
  then have "source_map (gather ?srcs ticker' gather_init) = per_source_map ?srcs ticker'"
    by (rule gather_init_source_map)
  also have "\<dots> = [(''YahooFinance'', Price (float_of 150)), (''Stooq'', Price (float_of 200))]"
    by (simp add: per_source_map_def YahooSource_def StooqSource_def reading_value_def
        valid_150 valid_200)
  finally have sm: "source_map (gather ?srcs ticker' gather_init) =
      [(''YahooFinance'', Price (float_of 150)), (''Stooq'', Price (float_of 200))]" .
  show "fetch_price (StockPriceEngine_init (\<lambda>_. Some (float_of 150)) (\<lambda>_. Some (float_of 200)))
       now' stamp' ticker' =
     Inr (Failure ''LOW_CONFIDENCE''
           ''Prices deviated by more than 0.5%. Check raw prices.'' stamp'
           [(''YahooFinance'', Price (float_of 150)), (''Stooq'', Price (float_of 200))])"
    using fetch_price_low_confidence[OF len con, of now' stamp']
    unfolding sm StockPriceEngine_init_def .
qed

text \<open>Two sources of other names answering 150.00 and 200.00.\<close>

theorem fetch_price_low_confidence_failure_witness:
  "MIN_VALID_SOURCES \<le> length (valid_readings
      [\<lparr>name = ''A'', fetch = (\<lambda>_. Some (float_of 150))\<rparr>,
       \<lparr>name = ''B'', fetch = (\<lambda>_. Some (float_of 200))\<rparr>] ''msft'') \<and>
   consensus_price (valid_readings
      [\<lparr>name = ''A'', fetch = (\<lambda>_. Some (float_of 150))\<rparr>,
       \<lparr>name = ''B'', fetch = (\<lambda>_. Some (float_of 200))\<rparr>] ''msft'') = Inr None \<and>
   (\<exists>m. fetch_price (engine_of
      [\<lparr>name = ''A'', fetch = (\<lambda>_. Some (float_of 150))\<rparr>,
       \<lparr>name = ''B'', fetch = (\<lambda>_. Some (float_of 200))\<rparr>]) 0 ''T'' ''msft'' =
     Inr (Failure ''LOW_CONFIDENCE'' ''Prices deviated by more than 0.5%. Check raw prices.''
           ''T'' m))"
proof -
  let ?srcs = "[\<lparr>name = ''A'', fetch = (\<lambda>_. Some (float_of 150))\<rparr>,
       \<lparr>name = ''B'', fetch = (\<lambda>_. Some (float_of 200))\<rparr>]"
  have vr: "valid_readings ?srcs ''msft'' = [float_of 150, float_of 200]"
    by (simp add: valid_readings_def valid_150 valid_200)
  have h1: "MIN_VALID_SOURCES \<le> length (valid_readings ?srcs ''msft'')"
    unfolding vr by (simp add: MIN_VALID_SOURCES_def)
  have h2: "consensus_price (valid_readings ?srcs ''msft'') = Inr None"
    unfolding vr by (rule consensus_150_200)
  from fetch_price_low_confidence_failure [of ?srcs "''msft''" 0 "''T''"] h1 h2
  have "\<exists>m. fetch_price (engine_of ?srcs) 0 ''T'' ''msft'' =
       Inr (Failure ''LOW_CONFIDENCE''
             ''Prices deviated by more than 0.5%. Check raw prices.'' ''T'' m)"
    by blast
  with h1 h2 show ?thesis by (intro conjI)
qed

text \<open>
  Claim C6. For every result of a call: the confidence read with the default zero is
  zero exactly when the result is a failure; a success has a confidence strictly above
  zero; a failure has no confidence entry.
\<close>

theorem fetch_price_confidence_zero_iff_failure:
  assumes "fetch_price (engine_of srcs) now stamp ticker = Inr r"
  shows "((confidence_or_zero r = float_of 0) = is_Failure r) \<and>
         (is_Success r \<longrightarrow> fgt (confidence r) (float_of 0)) \<and>
         (is_Failure r \<longrightarrow> get_confidence r = None)"
proof (cases r)
  case (Success s p c u m st at ty)
  then have "is_Success r" by simp
  with fetch_price_outcomes[of srcs ticker now stamp] assms
  have "confidence r = py_round (fmin (float_of 1)
          (fadd (float_of (of_nat (length (valid_readings srcs ticker)) / of_nat (length srcs)))
                (float_of (1 / 10)))) 2"
    by auto
  then have pos: "fgt (confidence r) (float_of 0)" by (simp only: success_confidence_positive)
  then have "confidence r \<noteq> float_of 0" by (rule fgt_zero_nonzero)
  then show ?thesis using Success pos by (simp add: confidence_or_zero_def)
next
  case (Failure e msg at m)
  then show ?thesis by (simp add: confidence_or_zero_def)
qed

text \<open>A success with confidence 0.60 and a failure without a confidence.\<close>

theorem fetch_price_confidence_zero_iff_failure_witness:
  "fetch_price (engine_of [YahooSource (\<lambda>_. Some (float_of 150)), StooqSource (\<lambda>_. None)])
       0 ''T'' ''aapl'' =
     Inr (Success ''AAPL'' (float_of 150) (float_of (3 / 5)) [''YahooFinance'']
           [(''YahooFinance'', Price (float_of 150)), (''Stooq'', FAILED)]
           ''CLOSED'' ''T'' ''LIVE'') \<and>
   is_Success (Success ''AAPL'' (float_of 150) (float_of (3 / 5)) [''YahooFinance'']
           [(''YahooFinance'', Price (float_of 150)), (''Stooq'', FAILED)]
           ''CLOSED'' ''T'' ''LIVE'') \<and>
   fgt (confidence (Success ''AAPL'' (float_of 150) (float_of (3 / 5)) [''YahooFinance'']
           [(''YahooFinance'', Price (float_of 150)), (''Stooq'', FAILED)]
           ''CLOSED'' ''T'' ''LIVE'')) (float_of 0) \<and>
   fetch_price (engine_of [YahooSource (\<lambda>_. None), StooqSource (\<lambda>_. None)]) 0 ''T'' ''aapl'' =
     Inr (Failure ''INSUFFICIENT_DATA'' ''Requires 1 reliable sources, but only found 0'' ''T''
           [(''YahooFinance'', FAILED), (''Stooq'', FAILED)]) \<and>
   is_Failure (Failure ''INSUFFICIENT_DATA'' ''Requires 1 reliable sources, but only found 0'' ''T''
           [(''YahooFinance'', FAILED), (''Stooq'', FAILED)]) \<and>
   get_confidence (Failure ''INSUFFICIENT_DATA''
           ''Requires 1 reliable sources, but only found 0'' ''T''
           [(''YahooFinance'', FAILED), (''Stooq'', FAILED)]) = None"
proof -
  let ?ok = "Success ''AAPL'' (float_of 150) (float_of (3 / 5)) [''YahooFinance'']
           [(''YahooFinance'', Price (float_of 150)), (''Stooq'', FAILED)]
           ''CLOSED'' ''T'' ''LIVE''"
  let ?ko = "Failure ''INSUFFICIENT_DATA'' ''Requires 1 reliable sources, but only found 0'' ''T''
           [(''YahooFinance'', FAILED), (''Stooq'', FAILED)]"
  have h1: "fetch_price (engine_of [YahooSource (\<lambda>_. Some (float_of 150)), StooqSource (\<lambda>_. None)])
              0 ''T'' ''aapl'' = Inr ?ok"
    by (rule fetch_price_one_of_two)
  have h2: "fetch_price (engine_of [YahooSource (\<lambda>_. None), StooqSource (\<lambda>_. None)])
              0 ''T'' ''aapl'' = Inr ?ko"
    by (rule fetch_price_none_of_two)
  have s: "is_Success ?ok" and f: "is_Failure ?ko" by simp_all
  from fetch_price_confidence_zero_iff_failure [OF h1] s
  have p: "fgt (confidence ?ok) (float_of 0)" by blast
  from fetch_price_confidence_zero_iff_failure [OF h2] f
  have n: "get_confidence ?ko = None" by blast
  show ?thesis using h1 s p h2 f n by (intro conjI)
qed

text \<open>
  Claim C7. For every call, however it ends, the per-source map of the result has
  exactly one entry for each registered source, under the name of the source, in the
  order of registration. This holds for every engine whose sources have names that
  differ from each other, and so for the engine \<^verbatim>\<open>__init__\<close> builds, whatever its two
  providers answer.
\<close>

theorem fetch_price_source_prices_keys:
  "(distinct (map name srcs) \<longrightarrow>
     (\<exists>r. fetch_price (engine_of srcs) now stamp ticker = Inr r \<and>
          source_prices r = per_source_map srcs ticker \<and>
          map fst (source_prices r) = map name srcs)) \<and>
   (\<exists>r. fetch_price (StockPriceEngine_init yahoo stooq) now' stamp' ticker' = Inr r \<and>
        map fst (source_prices r) = [''YahooFinance'', ''Stooq''])"
proof -
  have general: "\<exists>r. fetch_price (engine_of ss) t st tk = Inr r \<and>
          source_prices r = per_source_map ss tk \<and>
          map fst (source_prices r) = map name ss"
    if d: "distinct (map name ss)" for ss t st tk
  proof -
    obtain r where r: "fetch_price (engine_of ss) t st tk = Inr r"
      and sp: "source_prices r = source_map (gather ss tk gather_init)"
      using fetch_price_returns[of ss t st tk] by blast
    have "source_prices r = per_source_map ss tk"
      using sp gather_init_source_map[OF d] by simp
    then show ?thesis using r per_source_map_keys[of ss tk] by simp
  qed
  have "distinct (map name [YahooSource yahoo, StooqSource stooq])"
    by (simp add: YahooSource_def StooqSource_def)
  from general[OF this, of now' stamp' ticker']
  obtain r where "fetch_price (engine_of [YahooSource yahoo, StooqSource stooq])
        now' stamp' ticker' = Inr r"
    and "map fst (source_prices r) = map name [YahooSource yahoo, StooqSource stooq]"
    by blast
  then have "fetch_price (StockPriceEngine_init yahoo stooq) now' stamp' ticker' = Inr r \<and>
        map fst (source_prices r) = [''YahooFinance'', ''Stooq'']"
    by (simp add: StockPriceEngine_init_def YahooSource_def StooqSource_def)
  then have actual:
    "\<exists>r. fetch_price (StockPriceEngine_init yahoo stooq) now' stamp' ticker' = Inr r \<and>
        map fst (source_prices r) = [''YahooFinance'', ''Stooq'']"
    by (intro exI[of _ r])
  show ?thesis
  proof (intro conjI impI)
    assume "distinct (map name srcs)"
    then show "\<exists>r. fetch_price (engine_of srcs) now stamp ticker = Inr r \<and>
          source_prices r = per_source_map srcs ticker \<and>
          map fst (source_prices r) = map name srcs"
      by (rule general)
  next
    show "\<exists>r. fetch_price (StockPriceEngine_init yahoo stooq) now' stamp' ticker' = Inr r \<and>
        map fst (source_prices r) = [''YahooFinance'', ''Stooq'']"
      by (rule actual)
  qed
qed

text \<open>Three sources named A, B and C, the second without an answer.\<close>

theorem fetch_price_source_prices_keys_witness:
  "distinct (map name [\<lparr>name = ''A'', fetch = (\<lambda>_. Some (float_of 100))\<rparr>,
       \<lparr>name = ''B'', fetch = (\<lambda>_. None)\<rparr>,
       \<lparr>name = ''C'', fetch = (\<lambda>_. Some (float_of 100))\<rparr>]) \<and>
   (\<exists>r. fetch_price (engine_of [\<lparr>name = ''A'', fetch = (\<lambda>_. Some (float_of 100))\<rparr>,
       \<lparr>name = ''B'', fetch = (\<lambda>_. None)\<rparr>,
       \<lparr>name = ''C'', fetch = (\<lambda>_. Some (float_of 100))\<rparr>])
         0 ''T'' ''msft'' = Inr r \<and>
        source_prices r =
          [(''A'', Price (float_of 100)), (''B'', FAILED), (''C'', Price (float_of 100))] \<and>
        map fst (source_prices r) = [''A'', ''B'', ''C''])"
proof -
  let ?srcs = "[\<lparr>name = ''A'', fetch = (\<lambda>_. Some (float_of 100))\<rparr>,
       \<lparr>name = ''B'', fetch = (\<lambda>_. None)\<rparr>,
       \<lparr>name = ''C'', fetch = (\<lambda>_. Some (float_of 100))\<rparr>]"
  have h: "distinct (map name ?srcs)" by simp
  have i: "\<not> is_valid_price None" by (simp add: is_valid_price_def)
  have p: "per_source_map ?srcs ''msft'' =
      [(''A'', Price (float_of 100)), (''B'', FAILED), (''C'', Price (float_of 100))]"
    by (simp add: per_source_map_def reading_value_def valid_100 i)
  have n: "map name ?srcs = [''A'', ''B'', ''C'']" by simp
  from fetch_price_source_prices_keys [of ?srcs 0 "''T''" "''msft''"] h
  have "\<exists>r. fetch_price (engine_of ?srcs) 0 ''T'' ''msft'' = Inr r \<and>
          source_prices r = per_source_map ?srcs ''msft'' \<and>
          map fst (source_prices r) = map name ?srcs"
    by blast
  then have "\<exists>r. fetch_price (engine_of ?srcs) 0 ''T'' ''msft'' = Inr r \<and>
          source_prices r =
            [(''A'', Price (float_of 100)), (''B'', FAILED), (''C'', Price (float_of 100))] \<and>
          map fst (source_prices r) = [''A'', ''B'', ''C'']"
    by (simp only: p n)
  with h show ?thesis by (rule conjI)
qed

text \<open>
  Claim C10, as amended. For every list of finite, strictly positive prices of odd
  length, \<^const>\<open>consensus_price\<close> returns a price: the median is an element of the list
  and passes the filter. So a call with an odd number of valid readings, all of them
  finite, ends in a success, never in the failure \<^verbatim>\<open>LOW_CONFIDENCE\<close>.
\<close>

theorem consensus_price_odd_defined:
  "(odd (length prices) \<and> (\<forall>p\<in>set prices. is_finite p \<and> is_valid_price (Some p)) \<longrightarrow>
      (\<exists>v. consensus_price prices = Inr (Some v))) \<and>
   (odd (length (valid_readings srcs ticker)) \<and>
    (\<forall>p\<in>set (valid_readings srcs ticker). is_finite p) \<longrightarrow>
      (\<exists>r. fetch_price (engine_of srcs) now stamp ticker = Inr r \<and> is_Success r))"
proof (intro conjI impI)
  assume "odd (length prices) \<and> (\<forall>p\<in>set prices. is_finite p \<and> is_valid_price (Some p))"
  then show "\<exists>v. consensus_price prices = Inr (Some v)"
    using consensus_price_odd[of prices] by (simp add: is_valid_price_Some)
next
  assume a: "odd (length (valid_readings srcs ticker)) \<and>
    (\<forall>p\<in>set (valid_readings srcs ticker). is_finite p)"
  then have "valid_readings srcs ticker \<noteq> []" by auto
  then have len: "MIN_VALID_SOURCES \<le> length (valid_readings srcs ticker)"
    by (cases "valid_readings srcs ticker") (simp_all add: MIN_VALID_SOURCES_def)
  have "\<forall>p\<in>set (valid_readings srcs ticker). is_finite p \<and> fgt p (float_of 0)"
    using a valid_readings_positive[of srcs ticker] by simp
  then obtain v where "consensus_price (valid_readings srcs ticker) = Inr (Some v)"
    using consensus_price_odd[of "valid_readings srcs ticker"] a by blast
  from fetch_price_success[OF len this, of now stamp]
  show "\<exists>r. fetch_price (engine_of srcs) now stamp ticker = Inr r \<and> is_Success r"
    by simp
qed

text \<open>Three finite prices, and an engine with one valid, finite reading out of two.\<close>

theorem consensus_price_odd_defined_witness:
  "odd (length [float_of 150, float_of 200, float_of 150]) \<and>
   is_finite (float_of 150) \<and> is_valid_price (Some (float_of 150)) \<and>
   is_finite (float_of 200) \<and> is_valid_price (Some (float_of 200)) \<and>
   (\<exists>v. consensus_price [float_of 150, float_of 200, float_of 150] = Inr (Some v)) \<and>
   valid_readings [YahooSource (\<lambda>_. None), StooqSource (\<lambda>_. Some (float_of 150))] ''aapl'' =
     [float_of 150] \<and>
   odd (length [float_of 150]) \<and>
   (\<exists>r. fetch_price (engine_of [YahooSource (\<lambda>_. None), StooqSource (\<lambda>_. Some (float_of 150))])
           0 ''T'' ''aapl'' = Inr r \<and> is_Success r)"
proof -
  let ?prices = "[float_of 150, float_of 200, float_of 150]"
  let ?srcs = "[YahooSource (\<lambda>_. None), StooqSource (\<lambda>_. Some (float_of 150))]"
  have h1: "odd (length ?prices)" by simp
  have h2: "\<forall>p\<in>set ?prices. is_finite p \<and> is_valid_price (Some p)"
    using finite_150 finite_200 valid_150 valid_200 by simp
  have i: "\<not> is_valid_price None" by (simp add: is_valid_price_def)
  have vr: "valid_readings ?srcs ''aapl'' = [float_of 150]"
    by (simp add: valid_readings_def YahooSource_def StooqSource_def valid_150 i)
  have h3: "odd (length (valid_readings ?srcs ''aapl''))" unfolding vr by simp
  have h4: "\<forall>p\<in>set (valid_readings ?srcs ''aapl''). is_finite p"
    unfolding vr using finite_150 by simp
  from consensus_price_odd_defined [of ?prices ?srcs "''aapl''" 0 "''T''"] h1 h2 h3 h4
  have "(\<exists>v. consensus_price ?prices = Inr (Some v)) \<and>
        (\<exists>r. fetch_price (engine_of ?srcs) 0 ''T'' ''aapl'' = Inr r \<and> is_Success r)"
    by blast
  then show ?thesis using finite_150 finite_200 valid_150 valid_200 vr by simp
qed

text \<open>
  Claim C10 as it is stated fails on a price that is not finite. The positive infinity
  is strictly positive and \<^const>\<open>is_valid_price\<close> accepts it. Of the list that holds it
  alone the median is infinite, the deviation is NaN, the filter keeps nothing and
  \<^const>\<open>consensus_price\<close> returns no price; a call with this one valid reading ends in
  the failure \<^verbatim>\<open>LOW_CONFIDENCE\<close>.
\<close>

theorem consensus_price_odd_defined_counterexample:
  "is_valid_price (Some pinf) \<and>
   fgt pinf (float_of 0) \<and>
   odd (length [pinf]) \<and>
   consensus_price [pinf] = Inr None \<and>
   valid_readings [YahooSource (\<lambda>_. None), StooqSource (\<lambda>_. Some pinf)] ''aapl'' = [pinf] \<and>
   fetch_price (engine_of [YahooSource (\<lambda>_. None), StooqSource (\<lambda>_. Some pinf)])
       0 ''T'' ''aapl'' =
     Inr (Failure ''LOW_CONFIDENCE'' ''Prices deviated by more than 0.5%. Check raw prices.''
           ''T'' [(''YahooFinance'', FAILED), (''Stooq'', Price pinf)])"
proof (intro conjI)
  show "is_valid_price (Some pinf)" by code_simp
  show "fgt pinf (float_of 0)" by code_simp
  show "odd (length [pinf])" by simp
  show "consensus_price [pinf] = Inr None" by code_simp
  show "valid_readings [YahooSource (\<lambda>_. None), StooqSource (\<lambda>_. Some pinf)] ''aapl'' = [pinf]"
    by code_simp
  show "fetch_price (engine_of [YahooSource (\<lambda>_. None), StooqSource (\<lambda>_. Some pinf)])
       0 ''T'' ''aapl'' =
     Inr (Failure ''LOW_CONFIDENCE'' ''Prices deviated by more than 0.5%. Check raw prices.''
           ''T'' [(''YahooFinance'', FAILED), (''Stooq'', Price pinf)])"
    by code_simp
qed

end
